theory Spec2Isabelle
  imports Complex_Main "HOL-Library.Log_Nat"
begin

section \<open>Store Inventory (app.py): data model\<close>

text \<open>
  The program keeps products in one SQLite table, accessed through the peewee model
  \<open>Product\<close>. A calendar date is a \<open>datetime.date\<close>; Python orders dates by year, then
  month, then day.
\<close>

datatype date = Date (year: int) (month: int) (day: int)

definition date_less :: "date \<Rightarrow> date \<Rightarrow> bool" where
  "date_less a b \<longleftrightarrow>
     year a < year b \<or>
     (year a = year b \<and> (month a < month b \<or> (month a = month b \<and> day a < day b)))"

text \<open>
  An instance of \<open>Product\<close> that has not been saved yet (its \<open>product_id\<close> is
  \<open>None\<close>): the four data columns. The integer columns are Python integers.
\<close>

record product =
  product_name :: string
  product_quantity :: int
  product_price :: int
  date_updated :: date

text \<open>
  A row of the table is a saved instance: the primary key and the data columns. The table
  is the list of its rows in the order of insertion, which is the order \<open>Product.select()\<close>
  reads them in.
\<close>

type_synonym row = "int \<times> product"
type_synonym table = "row list"

datatype error =
  IntegrityError | DoesNotExist | ValueError | AttributeError | TypeError
  | OverflowError | ZeroDivisionError | EOFError

datatype outcome = Inserted | Updated | Skipped

section \<open>The table operations used by the program\<close>

definition names :: "table \<Rightarrow> string list" where
  "names t = map (\<lambda>r. product_name (snd r)) t"

definition ids :: "table \<Rightarrow> int list" where
  "ids t = map fst t"

text \<open>The key SQLite gives a new row of an \<open>INTEGER PRIMARY KEY\<close>: one more than the largest.\<close>

definition next_id :: "table \<Rightarrow> int" where
  "next_id t = fold max (ids t) 0 + 1"

text \<open>
  The columns \<open>product_quantity\<close> and \<open>product_price\<close> are \<open>IntegerField\<close>s: SQLite
  holds a signed 64-bit integer, and binding a Python integer outside that range to a
  statement raises \<open>OverflowError\<close> before the statement runs.
\<close>

definition fits_int64 :: "int \<Rightarrow> bool" where
  "fits_int64 i \<longleftrightarrow> - (2 ^ 63) \<le> i \<and> i < 2 ^ 63"

definition storable :: "product \<Rightarrow> bool" where
  "storable p \<longleftrightarrow> fits_int64 (product_quantity p) \<and> fits_int64 (product_price p)"

text \<open>
  \<open>new.save()\<close> on an unsaved instance is an \<open>INSERT\<close>. The column \<open>product_name\<close> is
  declared \<open>unique=True\<close>, so the insert raises \<open>IntegrityError\<close> when a row has the name.
  A statement that raises changes nothing; one that succeeds is committed at once.
\<close>

definition db_insert :: "product \<Rightarrow> table \<Rightarrow> error + table" where
  "db_insert new t =
     (if \<not> storable new then Inl OverflowError
      else if product_name new \<in> set (names t) then Inl IntegrityError
      else Inr (t @ [(next_id t, new)]))"

text \<open>\<open>Product.get(Product.product_name == n)\<close>: the first row of that name, or \<open>DoesNotExist\<close>.\<close>

definition get_by_name :: "string \<Rightarrow> table \<Rightarrow> error + row" where
  "get_by_name n t =
     (case find (\<lambda>r. product_name (snd r) = n) t of
        None \<Rightarrow> Inl DoesNotExist
      | Some r \<Rightarrow> Inr r)"

text \<open>
  \<open>existing.save()\<close> on a fetched instance is an \<open>UPDATE\<close> of the row with its key,
  writing every column.
\<close>

definition db_update :: "row \<Rightarrow> table \<Rightarrow> error + table" where
  "db_update e t =
     (if \<not> storable (snd e) then Inl OverflowError
      else Inr (map (\<lambda>r. if fst r = fst e then e else r) t))"

section \<open>Reconciling a candidate with the table\<close>

text \<open>
  \<open>_update_latest\<close>: fetch the stored row of the candidate's name and overwrite its
  quantity, price and date when the stored date is earlier than the candidate's. The
  outcome records which branch ran (\<open>verbose\<close> only adds printing and a pause).
\<close>

definition update_latest :: "product \<Rightarrow> table \<Rightarrow> error + (outcome \<times> table)" where
  "update_latest new t =
     (case get_by_name (product_name new) t of
        Inl e \<Rightarrow> Inl e
      | Inr existing \<Rightarrow>
          if date_less (date_updated (snd existing)) (date_updated new)
          then (case db_update (fst existing,
                        (snd existing)\<lparr>product_quantity := product_quantity new,
                                        product_price := product_price new,
                                        date_updated := date_updated new\<rparr>) t of
                  Inl e \<Rightarrow> Inl e
                | Inr t' \<Rightarrow> Inr (Updated, t'))
          else Inr (Skipped, t))"

text \<open>
  The block \<open>try: new.save() except IntegrityError: self._update_latest(new)\<close>, which is
  the body of the loop of \<open>_save_csv\<close> and the body of \<open>_save_product\<close>. Any other
  exception leaves the block, with the table as it was.
\<close>

definition reconcile :: "product \<Rightarrow> table \<Rightarrow> error + (outcome \<times> table)" where
  "reconcile new t =
     (case db_insert new t of
        Inr t' \<Rightarrow> Inr (Inserted, t')
      | Inl IntegrityError \<Rightarrow> update_latest new t
      | Inl e \<Rightarrow> Inl e)"

text \<open>
  \<open>_save_csv\<close>: the loop over the converted rows, counting the inserts. An exception ends
  the loop and the program; the rows saved before it stay saved. The result is the
  exception, if any, the table as the loop left it, and the count.
\<close>

fun save_csv_loop :: "product list \<Rightarrow> table \<Rightarrow> nat \<Rightarrow> error option \<times> table \<times> nat" where
  "save_csv_loop [] t count = (None, t, count)"
| "save_csv_loop (p # ps) t count =
     (case reconcile p t of
        Inl e \<Rightarrow> (Some e, t, count)
      | Inr (oc, t') \<Rightarrow> save_csv_loop ps t' (if oc = Inserted then count + 1 else count))"

definition save_csv :: "product list \<Rightarrow> table \<Rightarrow> error option \<times> table \<times> nat" where
  "save_csv ps t = save_csv_loop ps t 0"

text \<open>\<open>_save_product\<close>: the interactive add, after the user has confirmed.\<close>

definition save_product :: "product \<Rightarrow> table \<Rightarrow> error option \<times> table" where
  "save_product new t =
     (case reconcile new t of
        Inl e \<Rightarrow> (Some e, t)
      | Inr (oc, t') \<Rightarrow> (None, t'))"

text \<open>
  A sequence of runs of the block, ended by the first exception: the exception, if any,
  and the table as the runs left it.
\<close>

fun reconcile_all :: "product list \<Rightarrow> table \<Rightarrow> error option \<times> table" where
  "reconcile_all [] t = (None, t)"
| "reconcile_all (p # ps) t =
     (case reconcile p t of
        Inl e \<Rightarrow> (Some e, t)
      | Inr (oc, t') \<Rightarrow> reconcile_all ps t')"

text \<open>
  What the table's declaration guarantees: primary keys are distinct and
  names are distinct.
\<close>

definition table_inv :: "table \<Rightarrow> bool" where
  "table_inv t \<longleftrightarrow> distinct (ids t) \<and> distinct (names t)"

text \<open>The row of a name after the candidate's values have been copied onto it.\<close>

definition overwrite :: "product \<Rightarrow> row \<Rightarrow> row" where
  "overwrite new r =
     (if product_name (snd r) = product_name new
      then (fst r, (snd r)\<lparr>product_quantity := product_quantity new,
                           product_price := product_price new,
                           date_updated := date_updated new\<rparr>)
      else r)"

definition lookup :: "string \<Rightarrow> table \<Rightarrow> product option" where
  "lookup n t = map_option snd (find (\<lambda>r. product_name (snd r) = n) t)"

text \<open>
  A run of the program submits candidates in batches (\<open>_save_csv\<close>) and one at a time
  (\<open>_save_product\<close>), in any order, until an exception ends it.
\<close>

datatype submission = Batch "product list" | Add product

fun submit :: "submission list \<Rightarrow> table \<Rightarrow> error option \<times> table" where
  "submit [] t = (None, t)"
| "submit (Batch ps # ss) t =
     (case save_csv ps t of
        (Some e, t', count) \<Rightarrow> (Some e, t')
      | (None, t', count) \<Rightarrow> submit ss t')"
| "submit (Add p # ss) t =
     (case save_product p t of
        (Some e, t') \<Rightarrow> (Some e, t')
      | (None, t') \<Rightarrow> submit ss t')"

section \<open>Python's text conversions\<close>

text \<open>
  Strings are modelled as lists of 8-bit characters, read as the code points 0 to 255.
  The only decimal digits among them are the ASCII digits. \<open>int\<close> and \<open>float\<close> first
  replace the two spaces above 127 (NEL and the no-break space) by a blank and every
  other character from 127 on by a question mark, then strip the ASCII white space: tab,
  LF, VT, FF, CR and the blank.
\<close>

definition is_digit :: "char \<Rightarrow> bool" where
  "is_digit c \<longleftrightarrow> c \<in> set ''0123456789''"

definition digit_val :: "char \<Rightarrow> int" where
  "digit_val c = int (of_char c) - 48"

definition is_space :: "char \<Rightarrow> bool" where
  "is_space c \<longleftrightarrow> (of_char c :: nat) \<in> set [9, 10, 11, 12, 13, 32]"

definition to_ascii :: "char \<Rightarrow> char" where
  "to_ascii c =
     (if (of_char c :: nat) = 133 \<or> (of_char c :: nat) = 160 then CHR '' ''
      else if 127 \<le> (of_char c :: nat) then CHR ''?'' else c)"

text \<open>The stripping \<open>int\<close> and \<open>float\<close> apply to their argument.\<close>

definition strip :: "string \<Rightarrow> string" where
  "strip s = rev (dropWhile is_space (rev (dropWhile is_space s)))"

definition int_of_digits :: "string \<Rightarrow> int" where
  "int_of_digits ds = foldl (\<lambda>n c. 10 * n + digit_val c) 0 ds"

text \<open>
  An underscore in a numeric literal must stand between two digits; the check runs over
  the text with the previous character, starting from the null character.
\<close>

fun underscores_ok :: "char \<Rightarrow> string \<Rightarrow> bool" where
  "underscores_ok prev [] = (prev \<noteq> CHR ''_'')"
| "underscores_ok prev (c # cs) =
     ((if c = CHR ''_'' then is_digit prev
       else if prev = CHR ''_'' then is_digit c else True)
      \<and> underscores_ok c cs)"

text \<open>
  \<open>int(s)\<close> on a string: optional sign, decimal digits, \<open>ValueError\<close> otherwise, also
  for more than 4300 digits (the limit of Python 3.11 on conversions between integers
  and text).
\<close>

definition py_int :: "string \<Rightarrow> error + int" where
  "py_int s =
     (let t = strip (map to_ascii s);
          neg = (case t of [] \<Rightarrow> False | c # r \<Rightarrow> c = CHR ''-'');
          r = (case t of [] \<Rightarrow> [] | c # r \<Rightarrow> if c = CHR ''-'' \<or> c = CHR ''+'' then r else t);
          ds = filter (\<lambda>c. c \<noteq> CHR ''_'') r
      in if ds \<noteq> [] \<and> list_all is_digit ds \<and> underscores_ok (CHR 0x00) r \<and>
            length ds \<le> 4300
         then Inr (if neg then - int_of_digits ds else int_of_digits ds)
         else Inl ValueError)"

text \<open>
  \<open>re.search(r"\d+.?\d{0,2}", s)\<close>: the leftmost run of digits, then one more
  character of any kind but a newline when there is one (the dot of the pattern is not
  escaped), then up to two digits. \<open>None\<close> when the text has no digit.
\<close>

definition re_search_price :: "string \<Rightarrow> string option" where
  "re_search_price s =
     (let t = dropWhile (\<lambda>c. \<not> is_digit c) s;
          d = takeWhile is_digit t
      in if t = [] then None
         else (case dropWhile is_digit t of
                 [] \<Rightarrow> Some d
               | c # r \<Rightarrow>
                   if c = CHR 0x0A then Some d
                   else Some (d @ c # takeWhile is_digit (take 2 r))))"

section \<open>Binary floating point\<close>

text \<open>
  A Python \<open>float\<close> is an IEEE 754 double. \<open>Finite m e\<close> is the number \<open>m * 2 ^ e\<close>
  with \<open>\<bar>m\<bar> < 2 ^ 53\<close> and \<open>- 1074 \<le> e \<le> 971\<close>; the sign of a zero is not kept.
  Every operation gives the exact result rounded to the nearest double, ties to the even
  significand; \<open>round_to_double n d\<close> rounds the fraction \<open>n / d\<close> (with \<open>0 < d\<close>).
\<close>

datatype pyfloat = Finite int int | Infinity bool | NaN

definition rne_div :: "int \<Rightarrow> int \<Rightarrow> int" where
  "rne_div n d =
     (let q = n div d; r = n mod d
      in if 2 * r < d then q
         else if d < 2 * r then q + 1
         else if even q then q else q + 1)"

definition scale_num :: "int \<Rightarrow> int \<Rightarrow> int" where
  "scale_num n e = n * 2 ^ nat (- e)"

definition scale_den :: "int \<Rightarrow> int \<Rightarrow> int" where
  "scale_den d e = d * 2 ^ nat e"

definition binade :: "int \<Rightarrow> int \<Rightarrow> int" where
  "binade n d =
     (let e1 = bitlen n - bitlen d - 52;
          e = (if 2 ^ 52 \<le> scale_num n e1 div scale_den d e1 then e1 else e1 - 1)
      in max e (- 1074))"

definition round_to_double :: "int \<Rightarrow> int \<Rightarrow> pyfloat" where
  "round_to_double n d =
     (if n = 0 then Finite 0 0
      else
        let a = \<bar>n\<bar>;
            e = binade a d;
            m = rne_div (scale_num a e) (scale_den d e);
            m' = (if m = 2 ^ 53 then 2 ^ 52 else m);
            e' = (if m = 2 ^ 53 then e + 1 else e)
        in if m = 0 then Finite 0 0
           else if 971 < e' then Infinity (n < 0)
           else Finite (if n < 0 then - m' else m') e')"

definition float_of_int :: "int \<Rightarrow> pyfloat" where
  "float_of_int n = round_to_double n 1"

fun float_mul :: "pyfloat \<Rightarrow> pyfloat \<Rightarrow> pyfloat" where
  "float_mul (Finite m1 e1) (Finite m2 e2) =
     round_to_double (scale_den (m1 * m2) (e1 + e2)) (scale_num 1 (e1 + e2))"
| "float_mul (Finite m e) (Infinity s) = (if m = 0 then NaN else Infinity (s \<noteq> (m < 0)))"
| "float_mul (Infinity s) (Finite m e) = (if m = 0 then NaN else Infinity (s \<noteq> (m < 0)))"
| "float_mul (Infinity s1) (Infinity s2) = Infinity (s1 \<noteq> s2)"
| "float_mul NaN y = NaN"
| "float_mul x NaN = NaN"

fun float_to_int :: "pyfloat \<Rightarrow> error + int" where
  "float_to_int (Finite m e) =
     Inr (if 0 \<le> e then m * 2 ^ nat e
          else if 0 \<le> m then m div 2 ^ nat (- e) else - ((- m) div 2 ^ nat (- e)))"
| "float_to_int (Infinity s) = Inl OverflowError"
| "float_to_int NaN = Inl ValueError"

text \<open>
  \<open>float(s)\<close> on a string: optional sign, then \<open>inf\<close>, \<open>infinity\<close>, \<open>nan\<close> or a
  decimal number with an optional exponent, correctly rounded.
\<close>

definition lower_char :: "char \<Rightarrow> char" where
  "lower_char c = (let n = of_char c :: nat in if 65 \<le> n \<and> n \<le> 90 then char_of (n + 32) else c)"

definition parse_exponent :: "string \<Rightarrow> int option" where
  "parse_exponent r =
     (case r of
        [] \<Rightarrow> Some 0
      | c # r1 \<Rightarrow>
          if c = CHR ''e'' \<or> c = CHR ''E'' then
            (let neg = (case r1 of [] \<Rightarrow> False | s # r2 \<Rightarrow> s = CHR ''-'');
                 ds = (case r1 of [] \<Rightarrow> []
                       | s # r2 \<Rightarrow> if s = CHR ''-'' \<or> s = CHR ''+'' then r2 else r1)
             in if ds \<noteq> [] \<and> list_all is_digit ds
                then Some (if neg then - int_of_digits ds else int_of_digits ds)
                else None)
          else None)"

definition parse_unsigned :: "string \<Rightarrow> error + pyfloat" where
  "parse_unsigned r =
     (if map lower_char r = ''inf'' \<or> map lower_char r = ''infinity'' then Inr (Infinity False)
      else if map lower_char r = ''nan'' then Inr NaN
      else
        let ip = takeWhile is_digit r;
            r1 = dropWhile is_digit r;
            point = (case r1 of [] \<Rightarrow> False | c # r2 \<Rightarrow> c = CHR ''.'');
            fp = (if point then takeWhile is_digit (tl r1) else []);
            r3 = (if point then dropWhile is_digit (tl r1) else r1)
        in if ip = [] \<and> fp = [] then Inl ValueError
           else (case parse_exponent r3 of
                   None \<Rightarrow> Inl ValueError
                 | Some x \<Rightarrow>
                     let k = x - int (length fp)
                     in Inr (round_to_double (int_of_digits (ip @ fp) * 10 ^ nat k) (10 ^ nat (- k)))))"

fun float_neg :: "pyfloat \<Rightarrow> pyfloat" where
  "float_neg (Finite m e) = Finite (- m) e"
| "float_neg (Infinity s) = Infinity (\<not> s)"
| "float_neg NaN = NaN"

definition py_float :: "string \<Rightarrow> error + pyfloat" where
  "py_float s =
     (let t = strip (map to_ascii s);
          u = filter (\<lambda>c. c \<noteq> CHR ''_'') t
      in if \<not> underscores_ok (CHR 0x00) t then Inl ValueError
         else (case u of
                 [] \<Rightarrow> Inl ValueError
               | c # r \<Rightarrow>
                   if c = CHR ''-'' then map_sum id float_neg (parse_unsigned r)
                   else if c = CHR ''+'' then parse_unsigned r
                   else parse_unsigned u))"

section \<open>The batch import\<close>

text \<open>
  The price expression of \<open>_convert_csv\<close>:
  \<open>int(float(re.search(r"\d+.?\d{0,2}", s).group()) * 100)\<close>. \<open>.group()\<close> on the
  \<open>None\<close> of a failed search raises \<open>AttributeError\<close>.
\<close>

definition convert_price :: "string \<Rightarrow> error + int" where
  "convert_price s =
     (case re_search_price s of
        None \<Rightarrow> Inl AttributeError
      | Some g \<Rightarrow>
          (case py_float g of
             Inl e \<Rightarrow> Inl e
           | Inr f \<Rightarrow> float_to_int (float_mul f (float_of_int 100))))"

text \<open>
  \<open>datetime.datetime.strptime(s, "%m/%d/%Y").date()\<close>. The format compiles to a pattern
  of three fields separated by slashes: a month \<open>1[0-2]|0[1-9]|[1-9]\<close>, a day
  \<open>3[01]|[12]\d|0[1-9]|[1-9]| [1-9]\<close> and a year of exactly four digits, with nothing after
  it; the date must exist in the calendar, with a year from 1 to 9999.
\<close>

definition is_digit19 :: "char \<Rightarrow> bool" where
  "is_digit19 c \<longleftrightarrow> c \<in> set ''123456789''"

definition month_field :: "string \<Rightarrow> bool" where
  "month_field f =
     (case f of
        [a] \<Rightarrow> is_digit19 a
      | [a, b] \<Rightarrow> (a = CHR ''1'' \<and> b \<in> set ''012'') \<or> (a = CHR ''0'' \<and> is_digit19 b)
      | _ \<Rightarrow> False)"

definition day_field :: "string \<Rightarrow> bool" where
  "day_field f =
     (case f of
        [a] \<Rightarrow> is_digit19 a
      | [a, b] \<Rightarrow>
          (a = CHR ''3'' \<and> b \<in> set ''01'') \<or> (a \<in> set ''12'' \<and> is_digit b) \<or>
          (a = CHR ''0'' \<and> is_digit19 b) \<or> (a = CHR '' '' \<and> is_digit19 b)
      | _ \<Rightarrow> False)"

definition is_leap :: "int \<Rightarrow> bool" where
  "is_leap y = (if y mod 400 = 0 then True else if y mod 100 = 0 then False else y mod 4 = 0)"

definition days_in_month :: "int \<Rightarrow> int \<Rightarrow> int" where
  "days_in_month y m =
     (if m = 2 then (if is_leap y then 29 else 28)
      else if m \<in> set [4, 6, 9, 11] then 30 else 31)"

definition valid_date :: "date \<Rightarrow> bool" where
  "valid_date d \<longleftrightarrow>
     1 \<le> year d \<and> year d \<le> 9999 \<and> 1 \<le> month d \<and> month d \<le> 12 \<and>
     1 \<le> day d \<and> day d \<le> days_in_month (year d) (month d)"

definition strptime :: "string \<Rightarrow> error + date" where
  "strptime s =
     (let mf = takeWhile (\<lambda>c. c \<noteq> CHR ''/'') s;
          r1 = drop 1 (dropWhile (\<lambda>c. c \<noteq> CHR ''/'') s);
          df = takeWhile (\<lambda>c. c \<noteq> CHR ''/'') r1;
          yf = drop 1 (dropWhile (\<lambda>c. c \<noteq> CHR ''/'') r1);
          d = Date (int_of_digits yf) (int_of_digits mf)
                (int_of_digits (filter (\<lambda>c. c \<noteq> CHR '' '') df))
      in if month_field mf \<and> day_field df \<and> length yf = 4 \<and> list_all is_digit yf \<and> valid_date d
         then Inr d else Inl ValueError)"

text \<open>
  A row of \<open>inventory.csv\<close> as \<open>csv.DictReader\<close> gives it, for a file whose header names
  the four columns and whose rows have four cells.
\<close>

record csv_row =
  cell_name :: string
  cell_price :: string
  cell_quantity :: string
  cell_date :: string

text \<open>
  The body of the loop of \<open>_convert_csv\<close>: the price, then the quantity, then the date;
  the first conversion that raises ends it.
\<close>

definition convert_row :: "csv_row \<Rightarrow> error + product" where
  "convert_row r =
     (case convert_price (cell_price r) of
        Inl e \<Rightarrow> Inl e
      | Inr c \<Rightarrow>
          (case py_int (cell_quantity r) of
             Inl e \<Rightarrow> Inl e
           | Inr q \<Rightarrow>
               (case strptime (cell_date r) of
                  Inl e \<Rightarrow> Inl e
                | Inr d \<Rightarrow>
                    Inr \<lparr>product_name = cell_name r, product_quantity = q,
                         product_price = c, date_updated = d\<rparr>)))"

text \<open>\<open>_convert_csv\<close>: the loop has no handler, so the first row that raises ends it.\<close>

fun convert_csv :: "csv_row list \<Rightarrow> error + product list" where
  "convert_csv [] = Inr []"
| "convert_csv (r # rs) =
     (case convert_row r of
        Inl e \<Rightarrow> Inl e
      | Inr p \<Rightarrow>
          (case convert_csv rs of
             Inl e \<Rightarrow> Inl e
           | Inr ps \<Rightarrow> Inr (p # ps)))"

text \<open>
  The import steps of \<open>go\<close>: \<open>_convert_csv\<close> over all the rows, then the loop of
  \<open>_save_csv\<close>. The result is the exception that ended them, if any, and the table as
  they left it. (What follows the loop in \<open>_save_csv\<close>, the reset of \<open>self.products\<close>, a
  message and the pause \<open>_wait\<close>, does not touch the table.)
\<close>

definition go_import :: "csv_row list \<Rightarrow> table \<Rightarrow> error option \<times> table" where
  "go_import rows t =
     (case convert_csv rows of
        Inl e \<Rightarrow> (Some e, t)
      | Inr ps \<Rightarrow> (case save_csv ps t of (eo, t', count) \<Rightarrow> (eo, t')))"

section \<open>The interactive add\<close>

text \<open>
  Standard input is the list of the lines still to be read; \<open>input\<close> takes the first and
  raises \<open>EOFError\<close> when there is none. \<open>s.upper() == "Q"\<close> holds for the one-letter
  strings \<open>q\<close> and \<open>Q\<close>.
\<close>

definition upper_char :: "char \<Rightarrow> char" where
  "upper_char c =
     (case map_of (zip ''abcdefghijklmnopqrstuvwxyz'' ''ABCDEFGHIJKLMNOPQRSTUVWXYZ'') c of
        Some u \<Rightarrow> u
      | None \<Rightarrow> c)"

definition upper_is :: "char \<Rightarrow> string \<Rightarrow> bool" where
  "upper_is u s = (case s of [c] \<Rightarrow> upper_char c = u | _ \<Rightarrow> False)"

text \<open>The three loops of \<open>_get_product_info\<close>; \<open>None\<close> is the return to the menu.\<close>

fun ask_name :: "string list \<Rightarrow> error + (string option \<times> string list)" where
  "ask_name [] = Inl EOFError"
| "ask_name (l # ls) =
     (if upper_is (CHR ''Q'') l then Inr (None, ls)
      else if l = [] then
        (case ls of
           [] \<Rightarrow> Inl EOFError
         | c # ls' \<Rightarrow> if upper_is (CHR ''Y'') c then Inr (None, ls') else ask_name ls')
      else Inr (Some l, ls))"

fun ask_quantity :: "string list \<Rightarrow> error + (int option \<times> string list)" where
  "ask_quantity [] = Inl EOFError"
| "ask_quantity (l # ls) =
     (if upper_is (CHR ''Q'') l then Inr (None, ls)
      else (case py_int l of
              Inr q \<Rightarrow> Inr (Some q, ls)
            | Inl ValueError \<Rightarrow> ask_quantity ls
            | Inl e \<Rightarrow> Inl e))"

text \<open>The price expression of the interactive add: \<open>int(float(s) * 100)\<close>.\<close>

definition dollars_to_cents :: "string \<Rightarrow> error + int" where
  "dollars_to_cents s =
     (case py_float s of
        Inl e \<Rightarrow> Inl e
      | Inr f \<Rightarrow> float_to_int (float_mul f (float_of_int 100)))"

fun ask_price :: "string list \<Rightarrow> error + (int option \<times> string list)" where
  "ask_price [] = Inl EOFError"
| "ask_price (l # ls) =
     (if upper_is (CHR ''Q'') l then Inr (None, ls)
      else (case dollars_to_cents l of
              Inr c \<Rightarrow> Inr (Some c, ls)
            | Inl ValueError \<Rightarrow> ask_price ls
            | Inl e \<Rightarrow> Inl e))"

text \<open>
  \<open>_get_product_info\<close>, with the date \<open>datetime.datetime.now().date()\<close> as a parameter.
\<close>

definition get_product_info ::
  "date \<Rightarrow> string list \<Rightarrow> error + (product option \<times> string list)" where
  "get_product_info today ins =
     (case ask_name ins of
        Inl e \<Rightarrow> Inl e
      | Inr (None, r1) \<Rightarrow> Inr (None, r1)
      | Inr (Some n, r1) \<Rightarrow>
          (case ask_quantity r1 of
             Inl e \<Rightarrow> Inl e
           | Inr (None, r2) \<Rightarrow> Inr (None, r2)
           | Inr (Some q, r2) \<Rightarrow>
               (case ask_price r2 of
                  Inl e \<Rightarrow> Inl e
                | Inr (None, r3) \<Rightarrow> Inr (None, r3)
                | Inr (Some c, r3) \<Rightarrow>
                    Inr (Some \<lparr>product_name = n, product_quantity = q,
                                 product_price = c, date_updated = today\<rparr>, r3))))"

text \<open>\<open>_confirm\<close>: asks until the answer is yes or no.\<close>

fun confirm :: "string list \<Rightarrow> error + (bool \<times> string list)" where
  "confirm [] = Inl EOFError"
| "confirm (l # ls) =
     (if upper_is (CHR ''Y'') l then Inr (True, ls)
      else if upper_is (CHR ''N'') l then Inr (False, ls)
      else confirm ls)"

text \<open>
  \<open>_add_product\<close>: the questions, the confirmation, \<open>_save_product\<close>, and the pause
  \<open>_wait\<close> that follows the save on either branch and takes one more line. The result is
  the exception that ended the program, if any, the table as it was left, and the input
  not yet read.
\<close>

definition add_product ::
  "date \<Rightarrow> string list \<Rightarrow> table \<Rightarrow> error option \<times> table \<times> string list" where
  "add_product today ins t =
     (case get_product_info today ins of
        Inl e \<Rightarrow> (Some e, t, [])
      | Inr (None, r) \<Rightarrow> (None, t, r)
      | Inr (Some new, r) \<Rightarrow>
          (case confirm r of
             Inl e \<Rightarrow> (Some e, t, [])
           | Inr (False, r') \<Rightarrow> (None, t, r')
           | Inr (True, r') \<Rightarrow>
               (case save_product new t of
                  (Some e, t') \<Rightarrow> (Some e, t', r')
                | (None, t') \<Rightarrow>
                    (case r' of
                       [] \<Rightarrow> (Some EOFError, t', [])
                     | w # r'' \<Rightarrow> (None, t', r'')))))"

section \<open>The backup\<close>

text \<open>
  \<open>str(i)\<close> of an integer: its decimal digits, with a minus sign when negative;
  \<open>ValueError\<close> when there are more than 4300 digits. (\<open>digit_char\<close> is applied to
  numbers below ten only.)
\<close>

definition digit_char :: "nat \<Rightarrow> char" where
  "digit_char n = ''0123456789'' ! n"

fun digits_of :: "nat \<Rightarrow> string" where
  "digits_of n = (if n < 10 then [digit_char n] else digits_of (n div 10) @ [digit_char (n mod 10)])"

declare digits_of.simps [simp del]

definition int_text :: "int \<Rightarrow> string" where
  "int_text i = (if i < 0 then CHR ''-'' # digits_of (nat (- i)) else digits_of (nat i))"

definition py_str_int :: "int \<Rightarrow> error + string" where
  "py_str_int i =
     (if 4300 < length (digits_of (nat \<bar>i\<bar>)) then Inl ValueError else Inr (int_text i))"

definition zfill :: "nat \<Rightarrow> string \<Rightarrow> string" where
  "zfill k s = replicate (k - length s) (CHR ''0'') @ s"

text \<open>
  \<open>strftime("%m/%d/%Y")\<close> of a date: month and day in two digits, then the year, which
  the C library of Linux does not pad below 1000. \<open>str\<close> of a date is its ISO form, the
  year in four digits.
\<close>

definition strftime :: "date \<Rightarrow> string" where
  "strftime d =
     zfill 2 (digits_of (nat (month d))) @ ''/'' @ zfill 2 (digits_of (nat (day d))) @ ''/'' @
     digits_of (nat (year d))"

definition isoformat :: "date \<Rightarrow> string" where
  "isoformat d =
     zfill 4 (digits_of (nat (year d))) @ ''-'' @ zfill 2 (digits_of (nat (month d))) @ ''-'' @
     zfill 2 (digits_of (nat (day d)))"

text \<open>
  \<open>a / b\<close> on integers is the quotient rounded to the nearest double; it raises
  \<open>OverflowError\<close> when that is not finite.
\<close>

definition int_true_div :: "int \<Rightarrow> int \<Rightarrow> error + pyfloat" where
  "int_true_div a b =
     (if b = 0 then Inl ZeroDivisionError
      else (case round_to_double (if b < 0 then - a else a) \<bar>b\<bar> of
              Infinity s \<Rightarrow> Inl OverflowError
            | f \<Rightarrow> Inr f))"

text \<open>
  \<open>repr\<close> of a float (which \<open>str\<close> and an f-string without a format use): the shortest
  decimal digit string that rounds back to the same double. \<open>decimal_exponent n d\<close> is
  the exponent of the leading digit of \<open>n / d\<close>; \<open>round_digits n d p\<close> rounds \<open>n / d\<close> to
  \<open>p\<close> significant digits, giving the digits as an integer and the exponent of the
  leading one.
\<close>

definition decimal_exponent :: "int \<Rightarrow> int \<Rightarrow> int" where
  "decimal_exponent n d =
     (if d \<le> n then int (length (digits_of (nat (n div d)))) - 1
      else - int (length (digits_of (nat ((d - 1) div n)))))"

definition round_digits :: "int \<Rightarrow> int \<Rightarrow> nat \<Rightarrow> int \<times> int" where
  "round_digits n d p =
     (let t = decimal_exponent n d;
          s = t - int p + 1;
          q = rne_div (n * 10 ^ nat (- s)) (d * 10 ^ nat s)
      in if q = 10 ^ p then (10 ^ (p - 1), t + 1) else (q, t))"

definition round_trips :: "int \<Rightarrow> int \<Rightarrow> nat \<Rightarrow> bool" where
  "round_trips m e p =
     (case round_digits (scale_den m e) (scale_num 1 e) p of
        (q, t) \<Rightarrow>
          round_to_double (q * 10 ^ nat (t - int p + 1)) (10 ^ nat (- (t - int p + 1)))
            = Finite m e)"

definition shortest_digits :: "int \<Rightarrow> int \<Rightarrow> string \<times> int" where
  "shortest_digits m e =
     (let p = (case find (round_trips m e) [1, 2, 3, 4, 5, 6, 7, 8, 9, 10, 11, 12, 13, 14, 15, 16] of
                 Some p \<Rightarrow> p
               | None \<Rightarrow> 17)
      in case round_digits (scale_den m e) (scale_num 1 e) p of
           (q, t) \<Rightarrow> (rev (dropWhile (\<lambda>c. c = CHR ''0'') (rev (digits_of (nat q)))), t + 1))"

text \<open>
  The layout of \<open>repr\<close>: \<open>decpt\<close> is the position of the decimal point in the digits.
  Scientific notation is used when \<open>decpt \<le> - 4\<close> or \<open>16 < decpt\<close>; otherwise the
  digits are written with the point in place and at least one digit after it.
\<close>

definition repr_layout :: "string \<Rightarrow> int \<Rightarrow> string" where
  "repr_layout ds decpt =
     (if decpt \<le> - 4 \<or> 16 < decpt then
        take 1 ds @ (if 1 < length ds then CHR ''.'' # drop 1 ds else []) @ ''e'' @
        (if decpt - 1 < 0 then ''-'' else ''+'') @ zfill 2 (digits_of (nat \<bar>decpt - 1\<bar>))
      else if decpt \<le> 0 then ''0.'' @ replicate (nat (- decpt)) (CHR ''0'') @ ds
      else if int (length ds) \<le> decpt
        then ds @ replicate (nat (decpt - int (length ds))) (CHR ''0'') @ ''.0''
      else take (nat decpt) ds @ CHR ''.'' # drop (nat decpt) ds)"

fun float_repr :: "pyfloat \<Rightarrow> string" where
  "float_repr (Finite m e) =
     (if m = 0 then ''0.0''
      else (if m < 0 then ''-'' else []) @
           (case shortest_digits \<bar>m\<bar> e of (ds, decpt) \<Rightarrow> repr_layout ds decpt))"
| "float_repr (Infinity s) = (if s then ''-inf'' else ''inf'')"
| "float_repr NaN = ''nan''"

text \<open>
  The list \<open>self.products\<close> holds dictionaries with the four keys; their values are
  strings, integers or dates, depending on which step last wrote them.
\<close>

datatype pyval = PyStr string | PyInt int | PyDate date

record entry =
  entry_name :: pyval
  entry_price :: pyval
  entry_quantity :: pyval
  entry_date :: pyval

fun py_str :: "pyval \<Rightarrow> error + string" where
  "py_str (PyStr s) = Inr s"
| "py_str (PyInt i) = py_str_int i"
| "py_str (PyDate d) = Inr (isoformat d)"

text \<open>\<open>_load_db\<close> appends one dictionary per row of the table to \<open>self.products\<close>.\<close>

definition load_db :: "entry list \<Rightarrow> table \<Rightarrow> entry list" where
  "load_db products t =
     products @
     map (\<lambda>r. \<lparr>entry_name = PyStr (product_name (snd r)),
                 entry_price = PyInt (product_price (snd r)),
                 entry_quantity = PyInt (product_quantity (snd r)),
                 entry_date = PyDate (date_updated (snd r))\<rparr>) t"

text \<open>
  The body of the loop of \<open>_convert_db\<close>. The price is \<open>f"${price / 100}"\<close>: the division
  raises \<open>TypeError\<close> on a value that is not a number. The quantity is \<open>str(quantity)\<close>. The
  date is \<open>datetime.datetime.strftime(date, "%m/%d/%Y")\<close>, which raises \<open>TypeError\<close> on a
  value that is not a date.
\<close>

definition convert_entry :: "entry \<Rightarrow> error + entry" where
  "convert_entry x =
     (case entry_price x of
        PyInt c \<Rightarrow>
          (case int_true_div c 100 of
             Inl e \<Rightarrow> Inl e
           | Inr f \<Rightarrow>
               (case py_str (entry_quantity x) of
                  Inl e \<Rightarrow> Inl e
                | Inr q \<Rightarrow>
                    (case entry_date x of
                       PyDate d \<Rightarrow>
                         Inr (x\<lparr>entry_price := PyStr (CHR ''$'' # float_repr f),
                                entry_quantity := PyStr q,
                                entry_date := PyStr (strftime d)\<rparr>)
                     | _ \<Rightarrow> Inl TypeError)))
      | _ \<Rightarrow> Inl TypeError)"

fun convert_db :: "entry list \<Rightarrow> error + entry list" where
  "convert_db [] = Inr []"
| "convert_db (x # xs) =
     (case convert_entry x of
        Inl e \<Rightarrow> Inl e
      | Inr y \<Rightarrow>
          (case convert_db xs of
             Inl e \<Rightarrow> Inl e
           | Inr ys \<Rightarrow> Inr (y # ys)))"

text \<open>
  \<open>_save_db\<close> writes \<open>backup.csv\<close> anew with \<open>csv.DictWriter\<close>: the header, then one line
  per dictionary, cells in the order of \<open>fieldnames\<close>, separated by commas, each line ended
  by CR LF. A cell with a comma, a double quote, a CR or an LF is quoted, its quotes
  doubled.
\<close>

definition csv_field :: "string \<Rightarrow> string" where
  "csv_field s =
     (if list_ex (\<lambda>c. c \<in> set [CHR '','', CHR 0x22, CHR 0x0D, CHR 0x0A]) s
      then CHR 0x22 # concat (map (\<lambda>c. if c = CHR 0x22 then [c, c] else [c]) s) @ [CHR 0x22]
      else s)"

fun join_comma :: "string list \<Rightarrow> string" where
  "join_comma [] = []"
| "join_comma [c] = c"
| "join_comma (c # cs) = c @ CHR '','' # join_comma cs"

definition csv_line :: "string list \<Rightarrow> string" where
  "csv_line cells = join_comma (map csv_field cells) @ [CHR 0x0D, CHR 0x0A]"

fun sequence :: "(error + 'a) list \<Rightarrow> error + 'a list" where
  "sequence [] = Inr []"
| "sequence (x # xs) =
     (case x of
        Inl e \<Rightarrow> Inl e
      | Inr y \<Rightarrow> (case sequence xs of Inl e \<Rightarrow> Inl e | Inr ys \<Rightarrow> Inr (y # ys)))"

definition entry_cells :: "entry \<Rightarrow> error + string list" where
  "entry_cells x =
     sequence [py_str (entry_name x), py_str (entry_price x), py_str (entry_quantity x),
               py_str (entry_date x)]"

definition header :: "string list" where
  "header = [''product_name'', ''product_price'', ''product_quantity'', ''date_updated'']"

definition save_db :: "entry list \<Rightarrow> error + string" where
  "save_db products =
     (case sequence (map entry_cells products) of
        Inl e \<Rightarrow> Inl e
      | Inr rows \<Rightarrow> Inr (concat (map csv_line (header # rows))))"

text \<open>
  \<open>_backup\<close>: \<open>_load_db\<close>, \<open>_convert_db\<close>, \<open>_save_db\<close>. It takes the list
  \<open>self.products\<close> as the run has left it and the table, and gives the new list and the
  text written to \<open>backup.csv\<close>, or the exception that ends the program. An exception of
  \<open>_convert_db\<close> comes before the file is opened. (The message and the pause \<open>_wait\<close>
  that follow the writing touch neither the file nor the list.)
\<close>

definition backup :: "entry list \<Rightarrow> table \<Rightarrow> error + (entry list \<times> string)" where
  "backup products t =
     (case convert_db (load_db products t) of
        Inl e \<Rightarrow> Inl e
      | Inr xs \<Rightarrow> (case save_db xs of Inl e \<Rightarrow> Inl e | Inr f \<Rightarrow> Inr (xs, f)))"

text \<open>Predicates used to state the properties of the import.\<close>

definition is_nonneg :: "pyfloat \<Rightarrow> bool" where
  "is_nonneg f = (case f of Finite m e \<Rightarrow> 0 \<le> m | Infinity s \<Rightarrow> \<not> s | NaN \<Rightarrow> True)"

definition converts :: "csv_row \<Rightarrow> bool" where
  "converts r = (case convert_row r of Inl e \<Rightarrow> False | Inr p \<Rightarrow> True)"

definition price_ok :: "row \<Rightarrow> bool" where
  "price_ok r \<longleftrightarrow> 0 \<le> product_price (snd r)"

text \<open>
  What a backup writes for a stored product: the dictionary after \<open>_convert_db\<close> and the
  cells of its line.
\<close>

definition price_text :: "int \<Rightarrow> string" where
  "price_text c = CHR ''$'' # float_repr (round_to_double c 100)"

definition exported_cells :: "product \<Rightarrow> string list" where
  "exported_cells p =
     [product_name p, price_text (product_price p), int_text (product_quantity p),
      strftime (date_updated p)]"

definition exported :: "product \<Rightarrow> entry" where
  "exported p =
     \<lparr>entry_name = PyStr (product_name p),
      entry_price = PyStr (price_text (product_price p)),
      entry_quantity = PyStr (int_text (product_quantity p)),
      entry_date = PyStr (strftime (date_updated p))\<rparr>"

text \<open>A sample product and a sample row of the file, for the concrete runs below.\<close>

definition ex_row :: "string \<Rightarrow> string \<Rightarrow> string \<Rightarrow> string \<Rightarrow> csv_row" where
  "ex_row n p q d = \<lparr>cell_name = n, cell_price = p, cell_quantity = q, cell_date = d\<rparr>"


definition ex_widget :: "int \<Rightarrow> int \<Rightarrow> date \<Rightarrow> product" where
  "ex_widget q p d = \<lparr>product_name = ''Widget'', product_quantity = q, product_price = p, date_updated = d\<rparr>"

section \<open>Properties of the reconciliation\<close>

lemma date_less_irrefl: "\<not> date_less d d"
  by (simp add: date_less_def)

lemma date_less_trans: "date_less a b \<Longrightarrow> date_less b c \<Longrightarrow> date_less a c"
  by (auto simp: date_less_def)

lemma date_less_asym: "date_less a b \<Longrightarrow> \<not> date_less b a"
  by (auto simp: date_less_def)

lemma fold_max_mono: "b \<le> fold max zs (b::int)"
  by (induction zs arbitrary: b) (auto intro: order_trans [OF max.cobounded2])

lemma fold_max_ge: "x \<in> set xs \<Longrightarrow> x \<le> fold max xs (a::int)"
proof (induction xs arbitrary: a)
  case Nil
  then show ?case by simp
next
  case (Cons y ys)
  show ?case
  proof (cases "x = y")
    case True
    have "y \<le> max y a" by simp
    also have "\<dots> \<le> fold max ys (max y a)" by (rule fold_max_mono)
    finally show ?thesis using True by simp
  next
    case False
    with Cons.prems have "x \<in> set ys" by simp
    then show ?thesis using Cons.IH by simp
  qed
qed

lemma next_id_fresh: "next_id t \<notin> set (ids t)"
proof
  assume "next_id t \<in> set (ids t)"
  then have "next_id t \<le> fold max (ids t) 0" by (rule fold_max_ge)
  then show False by (simp add: next_id_def)
qed

lemma find_name_None: "n \<notin> set (names t) \<Longrightarrow> find (\<lambda>r. product_name (snd r) = n) t = None"
  by (induction t) (auto simp: names_def)

lemma find_name_Some:
  "n \<in> set (names t) \<Longrightarrow>
     \<exists>r. find (\<lambda>r. product_name (snd r) = n) t = Some r \<and> r \<in> set t \<and> product_name (snd r) = n"
  by (induction t) (auto simp: names_def)

lemma find_append_new:
  "product_name new \<notin> set (names t) \<Longrightarrow>
     find (\<lambda>r. product_name (snd r) = product_name new) (t @ [(i, new)]) = Some (i, new)"
  by (induction t) (auto simp: names_def)

lemma update_is_overwrite:
  assumes inv: "table_inv t" and mem: "r \<in> set t" and nm: "product_name (snd r) = product_name new"
  shows "map (\<lambda>q. if fst q = fst r
                   then (fst r, (snd r)\<lparr>product_quantity := product_quantity new,
                                         product_price := product_price new,
                                         date_updated := date_updated new\<rparr>)
                   else q) t
         = map (overwrite new) t"
proof -
  have d1: "distinct (map fst t)" and d2: "distinct (map (\<lambda>r. product_name (snd r)) t)"
    using inv by (simp_all add: table_inv_def ids_def names_def)
  let ?e = "(fst r, (snd r)\<lparr>product_quantity := product_quantity new,
                              product_price := product_price new,
                              date_updated := date_updated new\<rparr>)"
  have "(if fst q = fst r then ?e else q) = overwrite new q" if q: "q \<in> set t" for q
  proof (cases "q = r")
    case True
    then show ?thesis using nm by (simp add: overwrite_def)
  next
    case False
    have "fst q \<noteq> fst r"
    proof
      assume "fst q = fst r"
      with d1 q mem have "q = r" by (meson distinct_map inj_onD)
      with False show False by simp
    qed
    moreover have "product_name (snd q) \<noteq> product_name new"
    proof
      assume "product_name (snd q) = product_name new"
      then have "product_name (snd q) = product_name (snd r)" using nm by simp
      with d2 q mem have "q = r" by (meson distinct_map inj_onD)
      with False show False by simp
    qed
    ultimately show ?thesis by (simp add: overwrite_def)
  qed
  then show ?thesis by (simp cong: map_cong)
qed

lemma names_map_overwrite: "names (map (overwrite new) t) = names t"
  by (induction t) (auto simp: names_def overwrite_def)

lemma ids_map_overwrite: "ids (map (overwrite new) t) = ids t"
  by (induction t) (auto simp: ids_def overwrite_def)

lemma reconcile_overflow: "\<not> storable new \<Longrightarrow> reconcile new t = Inl OverflowError"
  by (simp add: reconcile_def db_insert_def)

lemma reconcile_absent:
  "storable new \<Longrightarrow> product_name new \<notin> set (names t) \<Longrightarrow>
     reconcile new t = Inr (Inserted, t @ [(next_id t, new)])"
  by (simp add: reconcile_def db_insert_def)

lemma reconcile_present:
  assumes st: "storable new" and inv: "table_inv t" and mem: "r \<in> set t"
    and nm: "product_name (snd r) = product_name new"
  shows "reconcile new t =
           (if date_less (date_updated (snd r)) (date_updated new)
            then Inr (Updated, map (overwrite new) t) else Inr (Skipped, t))"
proof -
  have inn: "product_name new \<in> set (names t)"
    using mem nm by (force simp: names_def)
  then obtain q where q: "find (\<lambda>r. product_name (snd r) = product_name new) t = Some q"
    "q \<in> set t" "product_name (snd q) = product_name new"
    using find_name_Some by blast
  have "distinct (map (\<lambda>r. product_name (snd r)) t)"
    using inv by (simp add: table_inv_def names_def)
  with q mem nm have qr: "q = r" by (metis distinct_map inj_onD)
  have s2: "storable ((snd r)\<lparr>product_quantity := product_quantity new,
                              product_price := product_price new,
                              date_updated := date_updated new\<rparr>)"
    using st by (simp add: storable_def)
  show ?thesis
    using inn q(1) st s2 update_is_overwrite [OF inv mem nm]
    by (simp add: reconcile_def db_insert_def update_latest_def get_by_name_def db_update_def qr)
qed

lemma table_inv_insert:
  "table_inv t \<Longrightarrow> product_name new \<notin> set (names t) \<Longrightarrow> table_inv (t @ [(next_id t, new)])"
  using next_id_fresh [of t] by (simp add: table_inv_def ids_def names_def)

lemma table_inv_overwrite: "table_inv t \<Longrightarrow> table_inv (map (overwrite new) t)"
  by (simp add: table_inv_def names_map_overwrite ids_map_overwrite)

lemma reconcile_result:
  assumes "table_inv t"
  shows "reconcile new t = Inl OverflowError \<or>
         (\<exists>oc t'. reconcile new t = Inr (oc, t') \<and> table_inv t')"
proof (cases "storable new")
  case False
  then show ?thesis by (simp add: reconcile_overflow)
next
  case st: True
  show ?thesis
  proof (cases "product_name new \<in> set (names t)")
    case False
    then show ?thesis using assms st by (simp add: reconcile_absent table_inv_insert)
  next
    case True
    then obtain r where "r \<in> set t" "product_name (snd r) = product_name new"
      by (auto simp: names_def)
    then show ?thesis
      using assms st by (simp add: reconcile_present table_inv_overwrite)
  qed
qed

lemma reconcile_storable:
  assumes "storable new"
  shows "\<exists>oc t'. reconcile new t = Inr (oc, t')"
proof (cases "product_name new \<in> set (names t)")
  case False
  then show ?thesis using assms by (simp add: reconcile_absent)
next
  case True
  then obtain r where "find (\<lambda>r. product_name (snd r) = product_name new) t = Some r"
    using find_name_Some by blast
  then show ?thesis
    using True assms
    by (simp add: reconcile_def db_insert_def update_latest_def get_by_name_def db_update_def
        storable_def)
qed

lemma reconcile_all_inv: "table_inv t \<Longrightarrow> table_inv (snd (reconcile_all cs t))"
proof (induction cs arbitrary: t)
  case Nil
  then show ?case by simp
next
  case (Cons c cs)
  from reconcile_result [OF Cons.prems, of c] show ?case
  proof
    assume "reconcile c t = Inl OverflowError"
    then show ?thesis using Cons.prems by simp
  next
    assume "\<exists>oc t'. reconcile c t = Inr (oc, t') \<and> table_inv t'"
    then obtain oc t1 where "reconcile c t = Inr (oc, t1)" "table_inv t1" by blast
    then show ?thesis using Cons.IH by simp
  qed
qed

lemma reconcile_all_storable:
  "list_all storable cs \<Longrightarrow> fst (reconcile_all cs t) = None"
proof (induction cs arbitrary: t)
  case Nil
  then show ?case by simp
next
  case (Cons c cs)
  then obtain oc t1 where "reconcile c t = Inr (oc, t1)"
    using reconcile_storable [of c t] by auto
  then show ?case using Cons by simp
qed

lemma save_csv_loop_reconcile_all:
  "(case save_csv_loop ps t count of (eo, t', n) \<Rightarrow> (eo, t')) = reconcile_all ps t"
  by (induction ps arbitrary: t count) (auto split: sum.splits)

lemma save_csv_reconcile_all:
  "(case save_csv ps t of (eo, t', n) \<Rightarrow> (eo, t')) = reconcile_all ps t"
  by (simp add: save_csv_def save_csv_loop_reconcile_all)

lemma save_product_reconcile_all: "save_product new t = reconcile_all [new] t"
  by (simp add: save_product_def split: sum.splits)

lemma save_csv_inv:
  assumes "table_inv t"
  shows "table_inv (fst (snd (save_csv ps t)))"
proof -
  have "fst (snd (save_csv ps t)) = snd (reconcile_all ps t)"
    using save_csv_reconcile_all [of ps t]
    by (cases "save_csv ps t") (auto dest: sym)
  then show ?thesis using reconcile_all_inv [OF assms] by simp
qed

lemma save_product_inv: "table_inv t \<Longrightarrow> table_inv (snd (save_product new t))"
  using reconcile_all_inv [of t "[new]"] by (simp add: save_product_reconcile_all)

lemma submit_inv: "table_inv t \<Longrightarrow> table_inv (snd (submit ss t))"
proof (induction ss arbitrary: t)
  case Nil
  then show ?case by simp
next
  case (Cons s ss)
  show ?case
  proof (cases s)
    case (Batch ps)
    obtain eo t1 n where r: "save_csv ps t = (eo, t1, n)" by (cases "save_csv ps t") auto
    have i: "table_inv t1" using save_csv_inv [OF Cons.prems, of ps] r by simp
    show ?thesis using Cons.IH [OF i] i r Batch by (cases eo) simp_all
  next
    case (Add p)
    obtain eo t1 where r: "save_product p t = (eo, t1)" by (cases "save_product p t") auto
    have i: "table_inv t1" using save_product_inv [OF Cons.prems, of p] r by simp
    show ?thesis using Cons.IH [OF i] i r Add by (cases eo) simp_all
  qed
qed

lemma lookup_absent: "n \<notin> set (names t) \<Longrightarrow> lookup n t = None"
  by (simp add: lookup_def find_name_None)

lemma lookup_append_new:
  "product_name new \<notin> set (names t) \<Longrightarrow> lookup (product_name new) (t @ [(i, new)]) = Some new"
  by (induction t) (auto simp: lookup_def names_def)

lemma lookup_map_overwrite:
  "lookup (product_name new) (map (overwrite new) t) =
     map_option (\<lambda>p. p\<lparr>product_quantity := product_quantity new,
                        product_price := product_price new,
                        date_updated := date_updated new\<rparr>) (lookup (product_name new) t)"
  by (induction t) (auto simp: lookup_def overwrite_def)

lemma lookup_present:
  assumes "table_inv t" "r \<in> set t" "product_name (snd r) = n"
  shows "lookup n t = Some (snd r)"
proof -
  have inn: "n \<in> set (names t)" using assms(2,3) by (force simp: names_def)
  then obtain q where q: "find (\<lambda>r. product_name (snd r) = n) t = Some q"
    "q \<in> set t" "product_name (snd q) = n"
    using find_name_Some by blast
  have "distinct (map (\<lambda>r. product_name (snd r)) t)"
    using assms(1) by (simp add: table_inv_def names_def)
  with q assms(2,3) have "q = r" by (metis distinct_map inj_onD)
  then show ?thesis using q(1) by (simp add: lookup_def)
qed

lemma map_overwrite_absent: "product_name new \<notin> set (names t) \<Longrightarrow> map (overwrite new) t = t"
  by (induction t) (auto simp: names_def overwrite_def)

lemma overwrite_twice:
  "product_name a = product_name b \<Longrightarrow> overwrite b (overwrite a r) = overwrite b r"
  by (simp add: overwrite_def)

lemma overwrite_same_name:
  "product_name a = product_name b \<Longrightarrow> overwrite b (i, a) = (i, b)"
  by (simp add: overwrite_def)

lemma sample_facts:
  "table_inv []"
  "storable (ex_widget 5 100 (Date 2024 1 1))"
  "storable (ex_widget 3 200 (Date 2024 2 1))"
  "storable (ex_widget 9 900 (Date 2024 1 1))"
  "storable (ex_widget 7 50 (Date 2024 2 1))"
  "table_inv [(1, ex_widget 5 100 (Date 2024 1 1))]"
  "table_inv [(1, ex_widget 4 400 (Date 2024 3 1))]"
  by (simp_all add: table_inv_def ids_def names_def storable_def fits_int64_def ex_widget_def)

lemma reconcile_sample_insert:
  "storable (ex_widget q p d) \<Longrightarrow> reconcile (ex_widget q p d) [] = Inr (Inserted, [(1, ex_widget q p d)])"
  by (simp add: reconcile_def db_insert_def names_def next_id_def ids_def)

subsection \<open>The three cases of a submission\<close>

text \<open>
  The claim C1 speaks of every candidate. The integer columns hold 64 bits: a candidate
  with the quantity \<open>2 ^ 63\<close>, which a row of the file can carry, is not inserted; its
  \<open>save()\<close> raises \<open>OverflowError\<close>, which the block does not catch.
\<close>

theorem reconcile_overflowing_quantity:
  "product_name (ex_widget (2 ^ 63) 100 (Date 2024 1 1)) \<notin> set (names []) \<and>
   reconcile (ex_widget (2 ^ 63) 100 (Date 2024 1 1)) [] = Inl OverflowError"
  by (simp add: reconcile_def db_insert_def storable_def fits_int64_def ex_widget_def names_def)

text \<open>
  C1, as the program has it. For every candidate whose quantity and price fit a signed
  64-bit integer, submitted to the reconciliation block (by the batch import or by the
  interactive add): when no stored row has the candidate's name, the candidate is
  appended as a new row under a fresh key; when a stored row has the name and the
  candidate's date is strictly later, that row's quantity, price and date are overwritten
  in place (its key and name, and every other row, stay as they are); otherwise, with a
  candidate date equal to or earlier than the stored one, the table is unchanged. A
  candidate outside the 64-bit range leaves the block with \<open>OverflowError\<close>.
\<close>

theorem reconcile_three_cases:
  assumes inv: "table_inv t"
  shows "(storable new \<and> product_name new \<notin> set (names t) \<longrightarrow>
            reconcile new t = Inr (Inserted, t @ [(next_id t, new)])) \<and>
         (\<forall>r\<in>set t. storable new \<and> product_name (snd r) = product_name new \<longrightarrow>
            reconcile new t =
              (if date_less (date_updated (snd r)) (date_updated new)
               then Inr (Updated, map (overwrite new) t)
               else Inr (Skipped, t))) \<and>
         (\<not> storable new \<longrightarrow> reconcile new t = Inl OverflowError)"
  using reconcile_absent [of new t] reconcile_present [OF _ inv, of new] reconcile_overflow [of new t]
  by blast

theorem reconcile_three_cases_witness:
  "table_inv [] \<and>
   reconcile (ex_widget 5 100 (Date 2024 1 1)) [] = Inr (Inserted, [(1, ex_widget 5 100 (Date 2024 1 1))]) \<and>
   table_inv [(1, ex_widget 5 100 (Date 2024 1 1))] \<and>
   reconcile (ex_widget 3 200 (Date 2024 2 1)) [(1, ex_widget 5 100 (Date 2024 1 1))]
     = Inr (Updated, [(1, ex_widget 3 200 (Date 2024 2 1))]) \<and>
   reconcile (ex_widget 9 900 (Date 2024 1 1)) [(1, ex_widget 5 100 (Date 2024 1 1))]
     = Inr (Skipped, [(1, ex_widget 5 100 (Date 2024 1 1))]) \<and>
   reconcile (ex_widget 9 (2 ^ 64) (Date 2024 5 1)) [(1, ex_widget 5 100 (Date 2024 1 1))]
     = Inl OverflowError"
proof -
  let ?w = "ex_widget 5 100 (Date 2024 1 1)"
  note i0 = sample_facts(1) and i1 = sample_facts(6)
  have a: "reconcile ?w [] = Inr (Inserted, [(1, ?w)])"
    using reconcile_three_cases [OF i0, of ?w] sample_facts(2)
    by (simp add: names_def next_id_def ids_def)
  have b: "reconcile (ex_widget 3 200 (Date 2024 2 1)) [(1, ?w)] = Inr (Updated, [(1, ex_widget 3 200 (Date 2024 2 1))])"
    using reconcile_three_cases [OF i1, of "ex_widget 3 200 (Date 2024 2 1)"] sample_facts(3)
    by (simp add: ex_widget_def date_less_def overwrite_def)
  have c: "reconcile (ex_widget 9 900 (Date 2024 1 1)) [(1, ?w)] = Inr (Skipped, [(1, ?w)])"
    using reconcile_three_cases [OF i1, of "ex_widget 9 900 (Date 2024 1 1)"] sample_facts(4)
    by (simp add: ex_widget_def date_less_def overwrite_def)
  have d: "reconcile (ex_widget 9 (2 ^ 64) (Date 2024 5 1)) [(1, ?w)] = Inl OverflowError"
    using reconcile_three_cases [OF i1, of "ex_widget 9 (2 ^ 64) (Date 2024 5 1)"]
    by (simp add: ex_widget_def storable_def fits_int64_def)
  from i0 i1 a b c d show ?thesis by simp
qed

subsection \<open>Names stay unique\<close>

text \<open>
  C2. After any sequence of submissions, batches of import rows and interactive adds in
  any order, the table holds at most one row per name (and per key), also when an
  exception has ended the run: a submission of a stored name never adds a second row.
\<close>

theorem names_unique_after_submissions:
  assumes "table_inv t"
  shows "distinct (names (snd (submit ss t))) \<and> distinct (ids (snd (submit ss t)))"
  using submit_inv [OF assms, of ss] by (simp add: table_inv_def)

theorem names_unique_after_submissions_witness:
  "table_inv [] \<and>
   submit [Batch [ex_widget 5 100 (Date 2024 1 1), ex_widget 3 200 (Date 2024 2 1)],
           Add (ex_widget 7 50 (Date 2024 2 1)),
           Add (ex_widget 7 (2 ^ 63) (Date 2024 4 1)),
           Add (ex_widget 9 900 (Date 2024 5 1))] []
     = (Some OverflowError, [(1, ex_widget 3 200 (Date 2024 2 1))]) \<and>
   distinct (names [(1, ex_widget 3 200 (Date 2024 2 1))]) \<and>
   distinct (ids [(1, ex_widget 3 200 (Date 2024 2 1))])"
proof -
  let ?ss = "[Batch [ex_widget 5 100 (Date 2024 1 1), ex_widget 3 200 (Date 2024 2 1)],
              Add (ex_widget 7 50 (Date 2024 2 1)),
              Add (ex_widget 7 (2 ^ 63) (Date 2024 4 1)),
              Add (ex_widget 9 900 (Date 2024 5 1))]"
  let ?t1 = "[(1, ex_widget 5 100 (Date 2024 1 1))]"
  let ?t2 = "[(1, ex_widget 3 200 (Date 2024 2 1))]"
  have i2: "table_inv ?t2"
    by (simp add: table_inv_def ids_def names_def)
  have r1: "reconcile (ex_widget 5 100 (Date 2024 1 1)) [] = Inr (Inserted, ?t1)"
    using sample_facts(2) by (rule reconcile_sample_insert)
  have r2: "reconcile (ex_widget 3 200 (Date 2024 2 1)) ?t1 = Inr (Updated, ?t2)"
    using reconcile_present [OF sample_facts(3) sample_facts(6), of "(1, ex_widget 5 100 (Date 2024 1 1))"]
    by (simp add: ex_widget_def date_less_def overwrite_def)
  have r3: "reconcile (ex_widget 7 50 (Date 2024 2 1)) ?t2 = Inr (Skipped, ?t2)"
    using reconcile_present [OF sample_facts(5) i2, of "(1, ex_widget 3 200 (Date 2024 2 1))"]
    by (simp add: ex_widget_def date_less_def overwrite_def)
  have r4: "reconcile (ex_widget 7 (2 ^ 63) (Date 2024 4 1)) ?t2 = Inl OverflowError"
    by (rule reconcile_overflow) (simp add: storable_def fits_int64_def ex_widget_def)
  have s: "submit ?ss [] = (Some OverflowError, ?t2)"
    using r4 by (simp add: save_csv_def save_product_def r1 r2 r3)
  from names_unique_after_submissions [OF sample_facts(1), of ?ss] s sample_facts(1)
  show ?thesis by simp
qed

subsection \<open>Submitting the same candidate twice\<close>

text \<open>
  The claim C5 speaks of every candidate. A candidate with the price \<open>2 ^ 63\<close> whose name
  the table does not hold is not \<open>Inserted\<close>: its \<open>save()\<close> raises \<open>OverflowError\<close>.
\<close>

theorem reimport_overflowing_price:
  "product_name (ex_widget 5 (2 ^ 63) (Date 2024 1 1)) \<notin> set (names []) \<and>
   reconcile (ex_widget 5 (2 ^ 63) (Date 2024 1 1)) [] = Inl OverflowError"
  by (simp add: reconcile_def db_insert_def storable_def fits_int64_def ex_widget_def names_def)

text \<open>
  C5, as the program has it. For every candidate whose quantity and price fit a signed
  64-bit integer and whose name the table does not hold, the first submission is
  \<open>Inserted\<close> and the second is \<open>Skipped\<close>; the second leaves the table exactly as the
  first left it, with one more row than at the start and the candidate's fields under its
  name.
\<close>

theorem reimport_idempotent:
  assumes "storable c" and "product_name c \<notin> set (names t)"
  shows "\<exists>t1. reconcile c t = Inr (Inserted, t1) \<and> reconcile c t1 = Inr (Skipped, t1) \<and>
              lookup (product_name c) t1 = Some c \<and> length t1 = length t + 1"
proof -
  let ?t1 = "t @ [(next_id t, c)]"
  have a: "reconcile c t = Inr (Inserted, ?t1)" using assms by (rule reconcile_absent)
  have l: "lookup (product_name c) ?t1 = Some c" using assms(2) by (rule lookup_append_new)
  have f: "find (\<lambda>r. product_name (snd r) = product_name c) ?t1 = Some (next_id t, c)"
    using assms(2) by (rule find_append_new)
  have b: "reconcile c ?t1 = Inr (Skipped, ?t1)"
    using f assms(1)
    by (simp add: reconcile_def db_insert_def names_def update_latest_def get_by_name_def
        date_less_irrefl del: find.simps)
  from a b l show ?thesis by simp
qed

theorem reimport_idempotent_witness:
  "storable (ex_widget 5 100 (Date 2024 1 1)) \<and>
   product_name (ex_widget 5 100 (Date 2024 1 1)) \<notin> set (names []) \<and>
   reconcile (ex_widget 5 100 (Date 2024 1 1)) [] = Inr (Inserted, [(1, ex_widget 5 100 (Date 2024 1 1))]) \<and>
   reconcile (ex_widget 5 100 (Date 2024 1 1)) [(1, ex_widget 5 100 (Date 2024 1 1))]
     = Inr (Skipped, [(1, ex_widget 5 100 (Date 2024 1 1))])"
proof -
  let ?w = "ex_widget 5 100 (Date 2024 1 1)"
  have h: "product_name ?w \<notin> set (names [])" by (simp add: names_def)
  from reimport_idempotent [OF sample_facts(2) h]
  obtain t1 where "reconcile ?w [] = Inr (Inserted, t1)" "reconcile ?w t1 = Inr (Skipped, t1)"
    by blast
  moreover have "reconcile ?w [] = Inr (Inserted, [(1, ?w)])"
    using sample_facts(2) by (rule reconcile_sample_insert)
  ultimately show ?thesis using h sample_facts(2) by simp
qed

subsection \<open>Order of two submissions of one name\<close>

text \<open>
  The claim C6 says that both orders leave the table with \<open>b\<close>'s values, whatever the
  table held. When the table holds a row of the name that is newer than \<open>b\<close>, both
  submissions are skipped in both orders and the stored values stay.
\<close>

theorem newer_stored_row_wins:
  "date_less (Date 2024 1 1) (Date 2024 2 1) \<and>
   reconcile_all [ex_widget 5 100 (Date 2024 1 1), ex_widget 3 200 (Date 2024 2 1)]
       [(1, ex_widget 4 400 (Date 2024 3 1))]
     = (None, [(1, ex_widget 4 400 (Date 2024 3 1))]) \<and>
   reconcile_all [ex_widget 3 200 (Date 2024 2 1), ex_widget 5 100 (Date 2024 1 1)]
       [(1, ex_widget 4 400 (Date 2024 3 1))]
     = (None, [(1, ex_widget 4 400 (Date 2024 3 1))]) \<and>
   lookup ''Widget'' [(1, ex_widget 4 400 (Date 2024 3 1))]
     = Some \<lparr>product_name = ''Widget'', product_quantity = 4, product_price = 400,
              date_updated = Date 2024 3 1\<rparr>"
proof -
  let ?t0 = "[(1, ex_widget 4 400 (Date 2024 3 1))]"
  have a: "reconcile (ex_widget 5 100 (Date 2024 1 1)) ?t0 = Inr (Skipped, ?t0)"
    using reconcile_present [OF sample_facts(2) sample_facts(7), of "(1, ex_widget 4 400 (Date 2024 3 1))"]
    by (simp add: ex_widget_def date_less_def)
  have b: "reconcile (ex_widget 3 200 (Date 2024 2 1)) ?t0 = Inr (Skipped, ?t0)"
    using reconcile_present [OF sample_facts(3) sample_facts(7), of "(1, ex_widget 4 400 (Date 2024 3 1))"]
    by (simp add: ex_widget_def date_less_def)
  show ?thesis
    by (simp add: a b) (simp add: date_less_def lookup_def ex_widget_def)
qed

text \<open>
  C6, as the program has it. For candidates \<open>a\<close> and \<open>b\<close> of the same name, both fitting
  the 64-bit columns, with \<open>a\<close>'s date strictly earlier than \<open>b\<close>'s: submitting \<open>a\<close> then
  \<open>b\<close> and submitting \<open>b\<close> then \<open>a\<close> raise nothing and end in the same table; when the
  table held no row of that name at the start, or one dated earlier than \<open>b\<close>, the row of
  that name ends with \<open>b\<close>'s quantity, price and date.
\<close>

theorem order_independent:
  assumes inv: "table_inv t"
    and sa: "storable a" and sb: "storable b"
    and nm: "product_name a = product_name b"
    and lt: "date_less (date_updated a) (date_updated b)"
  shows "\<exists>t'. reconcile_all [a, b] t = (None, t') \<and> reconcile_all [b, a] t = (None, t') \<and>
           ((\<forall>e. lookup (product_name b) t = Some e \<longrightarrow> date_less (date_updated e) (date_updated b)) \<longrightarrow>
            (\<exists>p. lookup (product_name b) t' = Some p \<and>
                 product_quantity p = product_quantity b \<and>
                 product_price p = product_price b \<and>
                 date_updated p = date_updated b))"
proof (cases "product_name b \<in> set (names t)")
  case False
  let ?i = "next_id t"
  have na: "product_name a \<notin> set (names t)" using False nm by simp
  have ia: "table_inv (t @ [(?i, a)])" using inv na by (rule table_inv_insert)
  have ib: "table_inv (t @ [(?i, b)])" using inv False by (rule table_inv_insert)
  have ra: "reconcile a t = Inr (Inserted, t @ [(?i, a)])" using sa na by (rule reconcile_absent)
  have rb: "reconcile b t = Inr (Inserted, t @ [(?i, b)])" using sb False by (rule reconcile_absent)
  have rab: "reconcile b (t @ [(?i, a)]) = Inr (Updated, t @ [(?i, b)])"
    using reconcile_present [OF sb ia, of "(?i, a)"] nm lt False
    by (simp add: map_overwrite_absent overwrite_same_name)
  have rba: "reconcile a (t @ [(?i, b)]) = Inr (Skipped, t @ [(?i, b)])"
    using reconcile_present [OF sa ib, of "(?i, b)"] nm date_less_asym [OF lt]
    by simp
  have "lookup (product_name b) (t @ [(?i, b)]) = Some b"
    using False by (rule lookup_append_new)
  then show ?thesis using ra rb rab rba by simp
next
  case True
  then obtain r where r: "r \<in> set t" "product_name (snd r) = product_name b"
    by (auto simp: names_def)
  let ?e = "date_updated (snd r)"
  let ?fin = "if date_less ?e (date_updated b) then map (overwrite b) t else t"
  have lk: "lookup (product_name b) t = Some (snd r)"
    using inv r by (rule lookup_present)
  have ab: "reconcile_all [a, b] t = (None, ?fin)"
  proof (cases "date_less ?e (date_updated a)")
    case True
    have eb: "date_less ?e (date_updated b)" using True lt by (rule date_less_trans)
    have i1: "table_inv (map (overwrite a) t)" using inv by (rule table_inv_overwrite)
    have m: "overwrite a r \<in> set (map (overwrite a) t)" using r(1) by simp
    have n1: "product_name (snd (overwrite a r)) = product_name b"
      using r(2) nm by (simp add: overwrite_def)
    have d1: "date_updated (snd (overwrite a r)) = date_updated a"
      using r(2) nm by (simp add: overwrite_def)
    have "reconcile a t = Inr (Updated, map (overwrite a) t)"
      using reconcile_present [OF sa inv r(1)] r(2) nm True by simp
    moreover have "reconcile b (map (overwrite a) t) = Inr (Updated, map (overwrite b) t)"
      using reconcile_present [OF sb i1 m n1] d1 lt nm by (simp add: overwrite_twice o_def)
    ultimately show ?thesis using eb by simp
  next
    case False
    have "reconcile a t = Inr (Skipped, t)"
      using reconcile_present [OF sa inv r(1)] r(2) nm False by simp
    moreover have "reconcile b t = Inr (if date_less ?e (date_updated b) then (Updated, map (overwrite b) t) else (Skipped, t))"
      using reconcile_present [OF sb inv r] by simp
    ultimately show ?thesis by simp
  qed
  have ba: "reconcile_all [b, a] t = (None, ?fin)"
  proof (cases "date_less ?e (date_updated b)")
    case True
    have i1: "table_inv (map (overwrite b) t)" using inv by (rule table_inv_overwrite)
    have m: "overwrite b r \<in> set (map (overwrite b) t)" using r(1) by simp
    have n1: "product_name (snd (overwrite b r)) = product_name a"
      using r(2) nm by (simp add: overwrite_def)
    have d1: "date_updated (snd (overwrite b r)) = date_updated b"
      using r(2) by (simp add: overwrite_def)
    have "reconcile b t = Inr (Updated, map (overwrite b) t)"
      using reconcile_present [OF sb inv r] True by simp
    moreover have "reconcile a (map (overwrite b) t) = Inr (Skipped, map (overwrite b) t)"
      using reconcile_present [OF sa i1 m n1] d1 date_less_asym [OF lt] by simp
    ultimately show ?thesis using True by simp
  next
    case False
    have na: "\<not> date_less ?e (date_updated a)"
      using False lt date_less_trans by blast
    have "reconcile b t = Inr (Skipped, t)"
      using reconcile_present [OF sb inv r] False by simp
    moreover have "reconcile a t = Inr (Skipped, t)"
      using reconcile_present [OF sa inv r(1)] r(2) nm na by simp
    ultimately show ?thesis using False by simp
  qed
  have "\<exists>p. lookup (product_name b) (map (overwrite b) t) = Some p \<and>
                 product_quantity p = product_quantity b \<and>
                 product_price p = product_price b \<and>
                 date_updated p = date_updated b"
    by (simp add: lookup_map_overwrite lk)
  then show ?thesis using ab ba lk by auto
qed

theorem order_independent_witness:
  "table_inv [] \<and>
   storable (ex_widget 5 100 (Date 2024 1 1)) \<and> storable (ex_widget 3 200 (Date 2024 2 1)) \<and>
   date_less (Date 2024 1 1) (Date 2024 2 1) \<and>
   reconcile_all [ex_widget 5 100 (Date 2024 1 1), ex_widget 3 200 (Date 2024 2 1)] []
     = (None, [(1, ex_widget 3 200 (Date 2024 2 1))]) \<and>
   reconcile_all [ex_widget 3 200 (Date 2024 2 1), ex_widget 5 100 (Date 2024 1 1)] []
     = (None, [(1, ex_widget 3 200 (Date 2024 2 1))]) \<and>
   lookup ''Widget'' [(1, ex_widget 3 200 (Date 2024 2 1))] = Some (ex_widget 3 200 (Date 2024 2 1))"
proof -
  let ?a = "ex_widget 5 100 (Date 2024 1 1)" and ?b = "ex_widget 3 200 (Date 2024 2 1)"
  have nm: "product_name ?a = product_name ?b" by (simp add: ex_widget_def)
  have lt: "date_less (date_updated ?a) (date_updated ?b)" by (simp add: ex_widget_def date_less_def)
  from order_independent [OF sample_facts(1) sample_facts(2) sample_facts(3) nm lt]
  obtain t' where t: "reconcile_all [?a, ?b] [] = (None, t')" "reconcile_all [?b, ?a] [] = (None, t')"
    by blast
  have rb: "reconcile ?b [] = Inr (Inserted, [(1, ?b)])"
    using sample_facts(3) by (rule reconcile_sample_insert)
  have i2: "table_inv [(1, ?b)]" by (simp add: table_inv_def ids_def names_def)
  have ra: "reconcile ?a [(1, ?b)] = Inr (Skipped, [(1, ?b)])"
    using reconcile_present [OF sample_facts(2) i2, of "(1, ?b)"]
    by (simp add: ex_widget_def date_less_def)
  have "reconcile_all [?b, ?a] [] = (None, [(1, ?b)])"
    by (simp add: rb ra)
  with t have "t' = [(1, ?b)]" by simp
  with t sample_facts lt show ?thesis by (simp add: lookup_def ex_widget_def)
qed

section \<open>Properties of the price conversion\<close>

text \<open>
  Concrete runs are evaluated in stages: the match of the pattern, the bit lengths, the
  binary exponent, the rounded significand, the double, the product with \<open>100\<close>.
\<close>

lemma search_029: "re_search_price ''$0.29'' = Some ''0.29''"
  by (simp add: re_search_price_def is_digit_def)

lemma search_1250: "re_search_price ''$12.50'' = Some ''12.50''"
  by (simp add: re_search_price_def is_digit_def)

lemma search_thousands: "re_search_price ''$1,234.56'' = Some ''1,23''"
  by (simp add: re_search_price_def is_digit_def)

lemma bitlen_values:
  "bitlen 29 = 5" "bitlen 100 = 7" "bitlen 1250 = 11" "bitlen 1 = 1"
  "bitlen 36761867406618650110129602560000 = 105"
  "bitlen 49517601571415210995964968960000 = 106"
  "bitlen 1267650600228229401496703205376 = 101"
  "bitlen 39614081257132168796771975168 = 96"
  by (simp_all add: compute_bitlen)

lemma binade_values:
  "binade 29 100 = - 54" "binade 1250 100 = - 49" "binade 100 1 = - 46"
  "binade 36761867406618650110129602560000 1267650600228229401496703205376 = - 48"
  "binade 49517601571415210995964968960000 39614081257132168796771975168 = - 42"
  by (simp_all add: binade_def bitlen_values scale_num_def scale_den_def)

lemma rne_values:
  "rne_div (scale_num 29 (- 54)) (scale_den 100 (- 54)) = 5224175567749775"
  "rne_div (scale_num 1250 (- 49)) (scale_den 100 (- 49)) = 7036874417766400"
  "rne_div (scale_num 100 (- 46)) (scale_den 1 (- 46)) = 7036874417766400"
  "rne_div (scale_num 36761867406618650110129602560000 (- 48))
     (scale_den 1267650600228229401496703205376 (- 48)) = 8162774324609023"
  "rne_div (scale_num 49517601571415210995964968960000 (- 42))
     (scale_den 39614081257132168796771975168 (- 42)) = 5497558138880000"
  by (simp_all add: rne_div_def scale_num_def scale_den_def)

lemma double_values:
  "round_to_double 29 100 = Finite 5224175567749775 (- 54)"
  "round_to_double 1250 100 = Finite 7036874417766400 (- 49)"
  "round_to_double 100 1 = Finite 7036874417766400 (- 46)"
  "round_to_double 36761867406618650110129602560000 1267650600228229401496703205376
     = Finite 8162774324609023 (- 48)"
  "round_to_double 49517601571415210995964968960000 39614081257132168796771975168
     = Finite 5497558138880000 (- 42)"
  by (simp_all add: round_to_double_def binade_values rne_values)

lemma float_029: "py_float ''0.29'' = Inr (Finite 5224175567749775 (- 54))"
  by (simp add: py_float_def strip_def is_space_def to_ascii_def parse_unsigned_def lower_char_def
      is_digit_def parse_exponent_def int_of_digits_def digit_val_def double_values)

lemma float_1250: "py_float ''12.50'' = Inr (Finite 7036874417766400 (- 49))"
  by (simp add: py_float_def strip_def is_space_def to_ascii_def parse_unsigned_def lower_char_def
      is_digit_def parse_exponent_def int_of_digits_def digit_val_def double_values)

lemma float_thousands: "py_float ''1,23'' = Inl ValueError"
  by (simp add: py_float_def strip_def is_space_def to_ascii_def parse_unsigned_def lower_char_def
      is_digit_def parse_exponent_def)

lemma times_100_values:
  "float_mul (Finite 5224175567749775 (- 54)) (float_of_int 100) = Finite 8162774324609023 (- 48)"
  "float_mul (Finite 7036874417766400 (- 49)) (float_of_int 100) = Finite 5497558138880000 (- 42)"
  by (simp_all add: float_of_int_def double_values scale_num_def scale_den_def)


text \<open>
  C3. The claim is that a well-formed amount parses to the amount times one hundred,
  rounded. The program multiplies the double nearest to the amount by \<open>100\<close> and then
  truncates: \<open>"$12.50"\<close> gives \<open>1250\<close>, but \<open>"$0.29"\<close> gives \<open>28\<close>, because the double
  nearest to \<open>0.29\<close> times \<open>100\<close> is the double just below \<open>29\<close>.
\<close>

theorem price_truncated: "convert_price ''$0.29'' = Inr 28 \<and> convert_price ''$12.50'' = Inr 1250"
  by (simp add: convert_price_def search_029 search_1250 float_029 float_1250 times_100_values)


text \<open>
  C10. The claim is that a price cell with a digit either converts or is reported as a
  parse failure of that field. For \<open>"$1,234.56"\<close> the pattern matches \<open>"1,23"\<close> (its dot
  takes the comma), \<open>float\<close> raises \<open>ValueError\<close> on it, and \<open>_convert_csv\<close> has no
  handler: the exception leaves the program.
\<close>

theorem price_thousands_raises: "convert_price ''$1,234.56'' = Inl ValueError"
  by (simp add: convert_price_def search_thousands float_thousands)

section \<open>Properties of the batch import\<close>

lemma convert_csv_first_error:
  "list_all converts good \<Longrightarrow> convert_row r = Inl e \<Longrightarrow>
     convert_csv (good @ r # rest) = Inl e"
proof (induction good)
  case Nil
  then show ?case by simp
next
  case (Cons g good)
  then obtain p where "convert_row g = Inr p"
    by (cases "convert_row g") (auto simp: converts_def)
  then show ?case using Cons by simp
qed

lemma digit_val_nonneg: "is_digit c \<Longrightarrow> 0 \<le> digit_val c"
  by (auto simp: is_digit_def digit_val_def)

lemma foldl_digits_nonneg:
  "list_all is_digit ds \<Longrightarrow> 0 \<le> a \<Longrightarrow> 0 \<le> foldl (\<lambda>n c. 10 * n + digit_val c) a ds"
proof (induction ds arbitrary: a)
  case Nil
  then show ?case by simp
next
  case (Cons c ds)
  then have "0 \<le> 10 * a + digit_val c" using digit_val_nonneg [of c] by simp
  then show ?case using Cons by simp
qed

lemma int_of_digits_nonneg: "list_all is_digit ds \<Longrightarrow> 0 \<le> int_of_digits ds"
  by (simp add: int_of_digits_def foldl_digits_nonneg)

lemma rne_div_nonneg: "0 \<le> n \<Longrightarrow> 0 < d \<Longrightarrow> 0 \<le> rne_div n d"
proof -
  assume "0 \<le> n" "0 < d"
  then have "0 \<le> n div d" by (simp add: pos_imp_zdiv_nonneg_iff)
  then show ?thesis by (simp add: rne_div_def Let_def)
qed

lemma round_to_double_nonneg:
  assumes "0 \<le> n" "0 < d"
  shows "is_nonneg (round_to_double n d)"
proof -
  have "0 \<le> rne_div (scale_num \<bar>n\<bar> e) (scale_den d e)" for e
    using assms by (intro rne_div_nonneg) (simp_all add: scale_num_def scale_den_def)
  then show ?thesis
    using assms(1)
    by (auto simp: round_to_double_def is_nonneg_def Let_def)
qed

lemma parse_unsigned_nonneg:
  assumes a: "parse_unsigned r = Inr f"
  shows "is_nonneg f"
proof -
  define special where "special = (map lower_char r = ''inf'' \<or> map lower_char r = ''infinity'')"
  define nan where "nan = (map lower_char r = ''nan'')"
  define point where "point = (case dropWhile is_digit r of [] \<Rightarrow> False | c # r2 \<Rightarrow> c = CHR ''.'')"
  define fp where "fp = (if point then takeWhile is_digit (tl (dropWhile is_digit r)) else [])"
  define ds where "ds = takeWhile is_digit r @ fp"
  have d: "list_all is_digit ds"
    unfolding ds_def fp_def by (auto simp: list_all_iff dest: set_takeWhileD)
  have nn: "is_nonneg (round_to_double (int_of_digits ds * 10 ^ k) (10 ^ j))" for k j
    by (rule round_to_double_nonneg) (simp_all add: int_of_digits_nonneg [OF d])
  from a have "f = Infinity False \<or> f = NaN \<or>
      (\<exists>k j. f = round_to_double (int_of_digits ds * 10 ^ k) (10 ^ j))"
    unfolding parse_unsigned_def Let_def special_def [symmetric] nan_def [symmetric]
      point_def [symmetric] fp_def [symmetric] ds_def [symmetric]
    by (auto split: if_splits option.splits)
  then show ?thesis using nn by (auto simp: is_nonneg_def)
qed

lemma strip_keeps_head: "\<not> is_space c \<Longrightarrow> \<exists>r. strip (c # cs) = c # r"
proof -
  assume n: "\<not> is_space c"
  have "dropWhile is_space (rev cs @ [c]) = dropWhile is_space (rev cs) @ [c]"
    using n by (induction "rev cs" arbitrary: cs) (auto simp: dropWhile_append)
  then show ?thesis using n by (simp add: strip_def)
qed

lemma digit_not_space: "is_digit c \<Longrightarrow> \<not> is_space c"
  by (auto simp: is_digit_def is_space_def)

lemma to_ascii_digit: "is_digit c \<Longrightarrow> to_ascii c = c"
  by (auto simp: is_digit_def to_ascii_def)

lemma py_float_digit_head:
  assumes "is_digit c" and "py_float (c # cs) = Inr f"
  shows "is_nonneg f"
proof -
  obtain r where r: "strip (map to_ascii (c # cs)) = c # r"
    using strip_keeps_head [OF digit_not_space [OF assms(1)], of "map to_ascii cs"]
    by (auto simp: to_ascii_digit [OF assms(1)])
  have c: "c \<noteq> CHR ''_''" "c \<noteq> CHR ''-''" "c \<noteq> CHR ''+''"
    using assms(1) by (auto simp: is_digit_def)
  from assms(2) have "parse_unsigned (c # filter (\<lambda>c. c \<noteq> CHR ''_'') r) = Inr f"
    using c unfolding py_float_def r by (simp add: Let_def split: if_splits)
  then show ?thesis by (rule parse_unsigned_nonneg)
qed

lemma re_search_price_digit_head:
  assumes "re_search_price s = Some g"
  shows "\<exists>c cs. g = c # cs \<and> is_digit c"
proof -
  let ?t = "dropWhile (\<lambda>c. \<not> is_digit c) s"
  from assms have ne: "?t \<noteq> []" by (auto simp: re_search_price_def Let_def split: if_splits)
  then obtain c t' where t: "?t = c # t'" by (cases ?t) auto
  have dc: "is_digit c" using hd_dropWhile [OF ne] t by simp
  then have "takeWhile is_digit ?t = c # takeWhile is_digit t'" using t by simp
  then show ?thesis
    using assms dc t
    by (auto simp: re_search_price_def Let_def split: if_splits list.splits)
qed

lemma float_mul_100_nonneg: "is_nonneg f \<Longrightarrow> is_nonneg (float_mul f (float_of_int 100))"
proof -
  assume a: "is_nonneg f"
  have h: "float_of_int 100 = Finite 7036874417766400 (- 46)"
    by (simp add: float_of_int_def double_values)
  show ?thesis
  proof (cases f)
    case (Finite m e)
    then have "0 \<le> m" using a by (simp add: is_nonneg_def)
    then show ?thesis
      unfolding h Finite float_mul.simps
      by (intro round_to_double_nonneg) (simp_all add: scale_num_def scale_den_def)
  next
    case (Infinity s)
    then show ?thesis using a by (simp add: h is_nonneg_def)
  next
    case NaN
    then show ?thesis by (simp add: h is_nonneg_def)
  qed
qed

lemma float_to_int_nonneg: "is_nonneg f \<Longrightarrow> float_to_int f = Inr c \<Longrightarrow> 0 \<le> c"
  by (cases f) (auto simp: is_nonneg_def pos_imp_zdiv_nonneg_iff split: if_splits)

lemma convert_price_nonneg:
  assumes "convert_price s = Inr c"
  shows "0 \<le> c"
proof -
  from assms obtain g f where g: "re_search_price s = Some g" and f: "py_float g = Inr f"
    and c: "float_to_int (float_mul f (float_of_int 100)) = Inr c"
    by (auto simp: convert_price_def split: option.splits sum.splits)
  from re_search_price_digit_head [OF g] obtain d ds where "g = d # ds" "is_digit d" by blast
  with f have "is_nonneg f" using py_float_digit_head by blast
  then have "is_nonneg (float_mul f (float_of_int 100))" by (rule float_mul_100_nonneg)
  then show ?thesis using c by (rule float_to_int_nonneg)
qed

lemma convert_row_price_ok: "convert_row r = Inr p \<Longrightarrow> 0 \<le> product_price p"
  by (auto simp: convert_row_def split: sum.splits dest: convert_price_nonneg)

lemma convert_csv_price_ok: "convert_csv rs = Inr ps \<Longrightarrow> list_all (\<lambda>p. 0 \<le> product_price p) ps"
proof (induction rs arbitrary: ps)
  case Nil
  then show ?case by simp
next
  case (Cons r rs)
  then show ?case
    by (auto split: sum.splits dest: convert_row_price_ok)
qed

lemma reconcile_price_ok:
  assumes "reconcile new t = Inr (oc, t')" and "0 \<le> product_price new" and "list_all price_ok t"
  shows "list_all price_ok t'"
proof (cases "product_name new \<in> set (names t)")
  case False
  then show ?thesis
    using assms
    by (auto simp: reconcile_def db_insert_def price_ok_def split: if_splits)
next
  case True
  then show ?thesis
    using assms
    by (fastforce simp: reconcile_def db_insert_def update_latest_def get_by_name_def db_update_def
        price_ok_def list_all_iff split: option.splits if_splits)
qed

lemma reconcile_all_price_ok:
  "list_all (\<lambda>p. 0 \<le> product_price p) ps \<Longrightarrow> list_all price_ok t \<Longrightarrow>
     list_all price_ok (snd (reconcile_all ps t))"
proof (induction ps arbitrary: t)
  case Nil
  then show ?case by simp
next
  case (Cons p ps)
  show ?case
  proof (cases "reconcile p t")
    case (Inl e)
    then show ?thesis using Cons.prems by simp
  next
    case (Inr x)
    obtain oc t1 where x: "x = (oc, t1)" by (cases x)
    have "list_all price_ok t1" using reconcile_price_ok [of p t oc t1] Inr x Cons.prems by simp
    then show ?thesis using Cons Inr x by simp
  qed
qed

lemma go_import_reconcile_all:
  "convert_csv rows = Inr ps \<Longrightarrow> go_import rows t = reconcile_all ps t"
  using save_csv_reconcile_all [of ps t] by (simp add: go_import_def)

lemma convert_price_1250: "convert_price ''$12.50'' = Inr 1250"
  by (simp add: convert_price_def search_1250 float_1250 times_100_values)

lemma convert_price_free: "convert_price ''free'' = Inl AttributeError"
  by (simp add: convert_price_def re_search_price_def is_digit_def)

lemma py_int_values:
  "py_int ''5'' = Inr 5" "py_int ''7'' = Inr 7" "py_int ''-5'' = Inr (- 5)"
  "py_int ''five'' = Inl ValueError"
  by (simp_all add: py_int_def strip_def is_space_def to_ascii_def is_digit_def int_of_digits_def digit_val_def)

lemma strptime_new_year: "strptime ''1/1/2024'' = Inr (Date 2024 1 1)"
  by (simp add: strptime_def month_field_def day_field_def is_digit19_def is_digit_def
      int_of_digits_def digit_val_def valid_date_def days_in_month_def)

lemma convert_row_values:
  "convert_row (ex_row ''Widget'' ''$12.50'' ''5'' ''1/1/2024'')
     = Inr (ex_widget 5 1250 (Date 2024 1 1))"
  "convert_row (ex_row ''Widget'' ''$12.50'' ''-5'' ''1/1/2024'')
     = Inr (ex_widget (- 5) 1250 (Date 2024 1 1))"
  "convert_row (ex_row ''Gadget'' ''free'' ''7'' ''1/1/2024'') = Inl AttributeError"
  "convert_row (ex_row ''Gadget'' ''$12.50'' ''five'' ''1/1/2024'') = Inl ValueError"
  by (simp_all add: convert_row_def ex_row_def ex_widget_def convert_price_1250 convert_price_free
      py_int_values strptime_new_year)

lemma convert_csv_all:
  "list_all converts rows \<Longrightarrow> \<exists>ps. convert_csv rows = Inr ps"
proof (induction rows)
  case Nil
  then show ?case by simp
next
  case (Cons r rows)
  then obtain p where "convert_row r = Inr p"
    by (cases "convert_row r") (auto simp: converts_def)
  then show ?case using Cons by auto
qed

lemma storable_sample: "0 \<le> q \<Longrightarrow> q < 2 ^ 63 \<Longrightarrow> 0 \<le> p \<Longrightarrow> p < 2 ^ 63 \<Longrightarrow> storable (ex_widget q p d)"
  by (simp add: storable_def fits_int64_def ex_widget_def)

lemma minus_five_bitlen:
  "bitlen 5 = 3"
  "bitlen 1 = 1"
  "bitlen 100 = 7"
  "bitlen 39614081257132168796771975168000 = 105"
  "bitlen 79228162514264337593543950336 = 97"
  by (simp_all add: compute_bitlen)

lemma minus_five_binade:
  "binade 5 1 = (- 50)"
  "binade 100 1 = (- 46)"
  "binade 39614081257132168796771975168000 79228162514264337593543950336 = (- 44)"
  by (simp_all add: binade_def minus_five_bitlen scale_num_def scale_den_def)

lemma minus_five_rne:
  "rne_div (scale_num 5 (- 50)) (scale_den 1 (- 50)) = 5629499534213120"
  "rne_div (scale_num 100 (- 46)) (scale_den 1 (- 46)) = 7036874417766400"
  "rne_div (scale_num 39614081257132168796771975168000 (- 44)) (scale_den 79228162514264337593543950336 (- 44)) = 8796093022208000"
  by (simp_all add: rne_div_def scale_num_def scale_den_def)

lemma minus_five_double:
  "round_to_double 5 1 = Finite 5629499534213120 (- 50)"
  "round_to_double 100 1 = Finite 7036874417766400 (- 46)"
  "round_to_double (- 39614081257132168796771975168000) 79228162514264337593543950336 = Finite (- 8796093022208000) (- 44)"
  by (simp_all add: round_to_double_def minus_five_binade minus_five_rne)

lemma dollars_to_cents_minus_five: "dollars_to_cents ''-5'' = Inr (- 500)"
  by (simp add: dollars_to_cents_def py_float_def strip_def is_space_def to_ascii_def
      parse_unsigned_def lower_char_def is_digit_def parse_exponent_def int_of_digits_def
      digit_val_def float_of_int_def minus_five_double scale_num_def scale_den_def)

lemma py_int_minus_three: "py_int ''-3'' = Inr (- 3)"
  by (simp add: py_int_def strip_def is_space_def to_ascii_def is_digit_def int_of_digits_def
      digit_val_def)

lemma interactive_answers:
  "ask_name [''Widget'', ''-3'', ''-5'', ''y'', ''''] = Inr (Some ''Widget'', [''-3'', ''-5'', ''y'', ''''])"
  "ask_quantity [''-3'', ''-5'', ''y'', ''''] = Inr (Some (- 3), [''-5'', ''y'', ''''])"
  "ask_price [''-5'', ''y'', ''''] = Inr (Some (- 500), [''y'', ''''])"
  "confirm [''y'', ''''] = Inr (True, [''''])"
  by (simp_all add: upper_is_def upper_char_def py_int_minus_three dollars_to_cents_minus_five)

subsection \<open>A malformed row\<close>

text \<open>
  The claim C4 says that a malformed row fails alone and the other rows of the batch are
  still reconciled. In the program \<open>_convert_csv\<close> converts every row before \<open>_save_csv\<close>
  stores any, and neither has a handler: with a price cell \<open>free\<close> in the second row the
  import ends with \<open>AttributeError\<close> and the table is still empty, although the first
  row is well formed.
\<close>

theorem import_price_free_aborts:
  "go_import [ex_row ''Widget'' ''$12.50'' ''5'' ''1/1/2024'',
              ex_row ''Gadget'' ''free'' ''7'' ''1/1/2024'',
              ex_row ''Widget'' ''$12.50'' ''-5'' ''1/1/2024''] []
     = (Some AttributeError, [])"
  by (simp add: go_import_def convert_row_values)

text \<open>
  C4, as the program has it. When a row of the batch is malformed, the import ends with
  the exception of the first such row and the table is left as it was: no row of the
  batch, before or after the malformed one, is reconciled. When every row converts, the
  import runs the reconciliation block on the converted rows one by one, in order; it
  raises nothing when their quantities and prices fit the 64-bit columns, and otherwise
  ends at the first that does not, with the rows before it stored.
\<close>

theorem malformed_row_aborts_import:
  "(list_all converts good \<and> convert_row r = Inl e \<longrightarrow>
      go_import (good @ r # rest) t = (Some e, t)) \<and>
   (list_all converts rows \<longrightarrow>
      (\<exists>ps. convert_csv rows = Inr ps \<and> go_import rows t = reconcile_all ps t \<and>
            (list_all storable ps \<longrightarrow> fst (go_import rows t) = None)))"
proof (intro conjI impI)
  assume "list_all converts good \<and> convert_row r = Inl e"
  then have "convert_csv (good @ r # rest) = Inl e"
    using convert_csv_first_error by blast
  then show "go_import (good @ r # rest) t = (Some e, t)"
    by (simp add: go_import_def)
next
  assume "list_all converts rows"
  then obtain ps where ps: "convert_csv rows = Inr ps" using convert_csv_all by blast
  have g: "go_import rows t = reconcile_all ps t" using ps by (rule go_import_reconcile_all)
  show "\<exists>ps. convert_csv rows = Inr ps \<and> go_import rows t = reconcile_all ps t \<and>
            (list_all storable ps \<longrightarrow> fst (go_import rows t) = None)"
    using ps g reconcile_all_storable [of ps t] by auto
qed

theorem malformed_row_aborts_import_witness:
  "list_all converts [ex_row ''Widget'' ''$12.50'' ''5'' ''1/1/2024''] \<and>
   convert_row (ex_row ''Gadget'' ''$12.50'' ''five'' ''1/1/2024'') = Inl ValueError \<and>
   go_import [ex_row ''Widget'' ''$12.50'' ''5'' ''1/1/2024'',
              ex_row ''Gadget'' ''$12.50'' ''five'' ''1/1/2024'',
              ex_row ''Widget'' ''$12.50'' ''-5'' ''1/1/2024''] []
     = (Some ValueError, []) \<and>
   go_import [ex_row ''Widget'' ''$12.50'' ''5'' ''1/1/2024''] []
     = (None, [(1, ex_widget 5 1250 (Date 2024 1 1))])"
proof -
  let ?w = "ex_row ''Widget'' ''$12.50'' ''5'' ''1/1/2024''"
  let ?b = "ex_row ''Gadget'' ''$12.50'' ''five'' ''1/1/2024''"
  have g: "list_all converts [?w]" by (simp add: converts_def convert_row_values)
  have b: "convert_row ?b = Inl ValueError" by (simp add: convert_row_values)
  have 1: "go_import ([?w] @ ?b # [ex_row ''Widget'' ''$12.50'' ''-5'' ''1/1/2024'']) []
             = (Some ValueError, [])"
    using malformed_row_aborts_import [of "[?w]" ?b ValueError _ "[]"] g b by blast
  obtain ps where 2: "convert_csv [?w] = Inr ps" "go_import [?w] [] = reconcile_all ps []"
    using malformed_row_aborts_import [of _ _ _ _ "[]" "[?w]"] g by blast
  from 2(1) have "ps = [ex_widget 5 1250 (Date 2024 1 1)]" by (simp add: convert_row_values)
  with 2(2) have "go_import [?w] [] = (None, [(1, ex_widget 5 1250 (Date 2024 1 1))])"
    using reconcile_sample_insert [OF storable_sample, of 5 1250 "Date 2024 1 1"] by simp
  with g b 1 show ?thesis by simp
qed

subsection \<open>Signs of the stored numbers\<close>

text \<open>
  The claim C7 says that no stored quantity or price is negative, from the import or from
  the interactive add. The program checks no sign. \<open>int("-5")\<close> is \<open>- 5\<close>, and the import
  stores it as a quantity; the interactive add asks with \<open>int\<close> for the quantity and with
  \<open>int(float(s) * 100)\<close> for the price, and the answers \<open>-3\<close> and \<open>-5\<close> are stored as the
  quantity \<open>- 3\<close> and the price \<open>- 500\<close>.
\<close>

theorem negative_numbers_stored:
  "go_import [ex_row ''Widget'' ''$12.50'' ''-5'' ''1/1/2024''] []
     = (None, [(1, \<lparr>product_name = ''Widget'', product_quantity = - 5,
                      product_price = 1250, date_updated = Date 2024 1 1\<rparr>)]) \<and>
   add_product (Date 2024 1 1) [''Widget'', ''-3'', ''-5'', ''y'', ''''] []
     = (None, [(1, \<lparr>product_name = ''Widget'', product_quantity = - 3,
                      product_price = - 500, date_updated = Date 2024 1 1\<rparr>)], [])"
proof -
  have s1: "storable (ex_widget (- 5) 1250 (Date 2024 1 1))"
    by (simp add: storable_def fits_int64_def ex_widget_def)
  have s2: "storable (ex_widget (- 3) (- 500) (Date 2024 1 1))"
    by (simp add: storable_def fits_int64_def ex_widget_def)
  have a: "go_import [ex_row ''Widget'' ''$12.50'' ''-5'' ''1/1/2024''] []
             = (None, [(1, ex_widget (- 5) 1250 (Date 2024 1 1))])"
    using reconcile_sample_insert [OF s1]
    by (simp add: go_import_def convert_row_values save_csv_def)
  have g: "get_product_info (Date 2024 1 1) [''Widget'', ''-3'', ''-5'', ''y'', '''']
             = Inr (Some (ex_widget (- 3) (- 500) (Date 2024 1 1)), [''y'', ''''])"
    by (simp add: get_product_info_def interactive_answers ex_widget_def
        del: ask_name.simps ask_quantity.simps ask_price.simps)
  have b: "add_product (Date 2024 1 1) [''Widget'', ''-3'', ''-5'', ''y'', ''''] []
             = (None, [(1, ex_widget (- 3) (- 500) (Date 2024 1 1))], [])"
    using reconcile_sample_insert [OF s2]
    by (simp add: add_product_def g interactive_answers save_product_def del: confirm.simps)
  from a b show ?thesis by (simp add: ex_widget_def)
qed

text \<open>
  C7, as the program has it. Every price the batch import stores is at least zero, since
  its pattern extracts digits without a sign: an import into a table whose prices are not
  negative leaves a table whose prices are not negative, whether it ends normally or with
  an exception. (The quantities of the import, and both numbers of the interactive add,
  carry the sign that was typed.)
\<close>

theorem imported_prices_nonneg:
  assumes "list_all price_ok t"
  shows "list_all price_ok (snd (go_import rows t))"
proof (cases "convert_csv rows")
  case (Inl e)
  then show ?thesis using assms by (simp add: go_import_def)
next
  case (Inr ps)
  have "list_all price_ok (snd (reconcile_all ps t))"
    using reconcile_all_price_ok [OF convert_csv_price_ok [OF Inr] assms] .
  then show ?thesis using go_import_reconcile_all [OF Inr] by simp
qed

theorem imported_prices_nonneg_witness:
  "list_all price_ok [] \<and>
   go_import [ex_row ''Widget'' ''$12.50'' ''5'' ''1/1/2024''] []
     = (None, [(1, ex_widget 5 1250 (Date 2024 1 1))]) \<and>
   list_all price_ok [(1, ex_widget 5 1250 (Date 2024 1 1))]"
proof -
  have h: "list_all price_ok []" by simp
  have g: "go_import [ex_row ''Widget'' ''$12.50'' ''5'' ''1/1/2024''] []
             = (None, [(1, ex_widget 5 1250 (Date 2024 1 1))])"
    using reconcile_sample_insert [OF storable_sample, of 5 1250 "Date 2024 1 1"]
    by (simp add: go_import_def convert_row_values save_csv_def)
  from imported_prices_nonneg [OF h, of "[ex_row ''Widget'' ''$12.50'' ''5'' ''1/1/2024'']"] g h
  show ?thesis by simp
qed

section \<open>Properties of the backup\<close>

lemma binade_le: "binade n d \<le> max (bitlen n - bitlen d - 52) (- 1074)"
  by (auto simp: binade_def Let_def max_def)

lemma round_to_double_finite:
  assumes "binade \<bar>n\<bar> d < 971"
  shows "\<exists>m e. round_to_double n d = Finite m e"
  using assms by (simp add: round_to_double_def Let_def)

lemma bitlen_100: "bitlen 100 = 7"
  by (simp add: compute_bitlen)

lemma cents_finite:
  assumes "fits_int64 c"
  shows "\<exists>m e. round_to_double c 100 = Finite m e"
proof -
  have "\<bar>c\<bar> < 2 ^ nat 64" using assms by (auto simp: fits_int64_def abs_if)
  then have "bitlen \<bar>c\<bar> \<le> 64" by (simp add: bitlen_le_iff_power)
  then have "binade \<bar>c\<bar> 100 < 971"
    using binade_le [of "\<bar>c\<bar>" 100] by (simp add: bitlen_100)
  then show ?thesis by (rule round_to_double_finite)
qed

lemma int_true_div_cents:
  "fits_int64 c \<Longrightarrow> int_true_div c 100 = Inr (round_to_double c 100)"
  using cents_finite [of c] by (auto simp: int_true_div_def)

lemma digits_of_length: "n < 10 ^ k \<Longrightarrow> 0 < k \<Longrightarrow> length (digits_of n) \<le> k"
proof (induction n arbitrary: k rule: digits_of.induct)
  case (1 n)
  show ?case
  proof (cases "n < 10")
    case True
    then show ?thesis using "1.prems" by (subst digits_of.simps) simp
  next
    case False
    obtain j where k: "k = Suc j" using "1.prems"(2) by (cases k) auto
    have "j \<noteq> 0" using False "1.prems"(1) k by (cases j) auto
    moreover have "n div 10 < 10 ^ j" using "1.prems"(1) k by (simp add: less_mult_imp_div_less mult.commute)
    ultimately have "length (digits_of (n div 10)) \<le> j" using "1.IH" False by simp
    then show ?thesis using False k by (subst digits_of.simps) simp
  qed
qed

lemma py_str_int_fits: "fits_int64 q \<Longrightarrow> py_str_int q = Inr (int_text q)"
proof -
  assume "fits_int64 q"
  then have "nat \<bar>q\<bar> < 10 ^ 19" by (auto simp: fits_int64_def abs_if)
  then have "length (digits_of (nat \<bar>q\<bar>)) \<le> 19" by (rule digits_of_length) simp
  then show ?thesis by (simp add: py_str_int_def)
qed

lemma convert_entry_loaded:
  assumes "storable p"
  shows "convert_entry \<lparr>entry_name = PyStr (product_name p),
                         entry_price = PyInt (product_price p),
                         entry_quantity = PyInt (product_quantity p),
                         entry_date = PyDate (date_updated p)\<rparr> = Inr (exported p)"
  using assms
  by (simp add: convert_entry_def storable_def int_true_div_cents py_str_int_fits exported_def
      price_text_def)

lemma convert_db_loaded:
  "list_all (\<lambda>r. storable (snd r)) t \<Longrightarrow>
     convert_db (load_db [] t) = Inr (map (\<lambda>r. exported (snd r)) t)"
  by (induction t) (simp_all add: load_db_def convert_entry_loaded)

lemma entry_cells_exported: "entry_cells (exported p) = Inr (exported_cells p)"
  by (simp add: entry_cells_def exported_def exported_cells_def)

lemma sequence_cells:
  "sequence (map entry_cells (map (\<lambda>r. exported (snd r)) t)) = Inr (map (\<lambda>r. exported_cells (snd r)) t)"
  by (induction t) (simp_all add: entry_cells_exported)

lemma convert_entry_string_price: "convert_entry (exported p) = Inl TypeError"
  by (simp add: convert_entry_def exported_def)

lemma convert_db_again:
  "t \<noteq> [] \<Longrightarrow> convert_db (load_db (map (\<lambda>r. exported (snd r)) t) t') = Inl TypeError"
  by (cases t) (simp_all add: load_db_def convert_entry_string_price)

lemma cents_1250_bitlen:
  "bitlen 1250 = 11"
  "bitlen 100 = 7"
  "bitlen 10 = 4"
  "bitlen 1 = 1"
  "bitlen 12 = 4"
  "bitlen 125 = 7"
  by (simp_all add: compute_bitlen)

lemma cents_1250_binade:
  "binade 1250 100 = (- 49)"
  "binade 10 1 = (- 49)"
  "binade 12 1 = (- 49)"
  "binade 125 10 = (- 49)"
  by (simp_all add: binade_def cents_1250_bitlen scale_num_def scale_den_def)

lemma cents_1250_rne:
  "rne_div (scale_num 1250 (- 49)) (scale_den 100 (- 49)) = 7036874417766400"
  "rne_div (scale_num 10 (- 49)) (scale_den 1 (- 49)) = 5629499534213120"
  "rne_div (scale_num 12 (- 49)) (scale_den 1 (- 49)) = 6755399441055744"
  "rne_div (scale_num 125 (- 49)) (scale_den 10 (- 49)) = 7036874417766400"
  by (simp_all add: rne_div_def scale_num_def scale_den_def)

lemma cents_1250_double:
  "round_to_double 1250 100 = Finite 7036874417766400 (- 49)"
  "round_to_double 10 1 = Finite 5629499534213120 (- 49)"
  "round_to_double 12 1 = Finite 6755399441055744 (- 49)"
  "round_to_double 125 10 = Finite 7036874417766400 (- 49)"
  by (simp_all add: round_to_double_def cents_1250_binade cents_1250_rne)






lemma cents_1250_div: "int_true_div 1250 100 = Inr (Finite 7036874417766400 (- 49))"
  by (simp add: int_true_div_def cents_1250_double)

lemma cents_200_bitlen:
  "bitlen 200 = 8"
  "bitlen 100 = 7"
  "bitlen 2 = 2"
  "bitlen 1 = 1"
  by (simp_all add: compute_bitlen)

lemma cents_200_binade:
  "binade 200 100 = (- 51)"
  "binade 2 1 = (- 51)"
  by (simp_all add: binade_def cents_200_bitlen scale_num_def scale_den_def)

lemma cents_200_rne:
  "rne_div (scale_num 200 (- 51)) (scale_den 100 (- 51)) = 4503599627370496"
  "rne_div (scale_num 2 (- 51)) (scale_den 1 (- 51)) = 4503599627370496"
  by (simp_all add: rne_div_def scale_num_def scale_den_def)

lemma cents_200_double:
  "round_to_double 200 100 = Finite 4503599627370496 (- 51)"
  "round_to_double 2 1 = Finite 4503599627370496 (- 51)"
  by (simp_all add: round_to_double_def cents_200_binade cents_200_rne)






lemma cents_200_div: "int_true_div 200 100 = Inr (Finite 4503599627370496 (- 51))"
  by (simp add: int_true_div_def cents_200_double)





subsection \<open>The layout of the backup file\<close>




subsection \<open>A second backup\<close>

text \<open>
  The claim C9 says that every backup writes the header and one row per stored record, and
  that a second backup of an unchanged store writes the same file. \<open>_load_db\<close> appends to
  \<open>self.products\<close>, and \<open>_backup\<close> never empties the list (as \<open>_save_csv\<close> does after the
  import): at the second backup the list still starts with the dictionaries of the first,
  whose prices are strings by then, and \<open>_convert_db\<close> raises \<open>TypeError\<close> on the first of
  them. For every table that is not empty and fits the 64-bit columns, the first backup
  succeeds and a backup that follows it, whatever the table holds then, ends the program
  with \<open>TypeError\<close> before the file is opened.
\<close>

theorem second_backup_raises:
  assumes "t \<noteq> []" and "list_all (\<lambda>r. storable (snd r)) t"
  shows "\<exists>products file. backup [] t = Inr (products, file) \<and>
           backup products t' = Inl TypeError"
proof -
  have "backup [] t =
          Inr (map (\<lambda>r. exported (snd r)) t,
               concat (map csv_line (header # map (\<lambda>r. exported_cells (snd r)) t)))"
    using convert_db_loaded [OF assms(2)] sequence_cells [of t]
    by (simp add: backup_def save_db_def)
  moreover have "backup (map (\<lambda>r. exported (snd r)) t) t' = Inl TypeError"
    using convert_db_again [OF assms(1)] by (simp add: backup_def)
  ultimately show ?thesis by blast
qed

theorem second_backup_raises_witness:
  "[(1, ex_widget 5 1250 (Date 2024 1 1))] \<noteq> [] \<and>
   list_all (\<lambda>r. storable (snd r)) [(1, ex_widget 5 1250 (Date 2024 1 1))] \<and>
   (\<exists>products file.
      backup [] [(1, ex_widget 5 1250 (Date 2024 1 1))] = Inr (products, file) \<and>
      backup products [(1, ex_widget 5 1250 (Date 2024 1 1))] = Inl TypeError)"
proof -
  have s: "list_all (\<lambda>r. storable (snd r)) [(1, ex_widget 5 1250 (Date 2024 1 1))]"
    by (simp add: storable_sample)
  have n: "[(1, ex_widget 5 1250 (Date 2024 1 1))] \<noteq> []" by simp
  from second_backup_raises [OF n s] n s show ?thesis by blast
qed

end
